theory Spec2Isabelle
  imports Complex_Main "HOL-Library.Multiset"
begin

section \<open>Python values and strings\<close>

text \<open>
  The dashboard reads JSON payloads and accesses them defensively, so a market is an
  arbitrary JSON value as Python holds it after \<^verbatim>\<open>r.json()\<close>. Object keys are strings.
  Finite floats are idealised as the rationals they denote (no rounding of the
  arithmetic operations, no NaN and no infinities); \<^verbatim>\<open>round\<close> is written out below.
  A \<open>string\<close> is read as a sequence of code points below 256.
\<close>

datatype pyval =
    PNone
  | PBool bool
  | PInt int
  | PFloat rat
  | PStr string
  | PList "pyval list"
  | PDict "(string \<times> pyval) list"

datatype py_error = KeyError | TypeError | IndexError | AttributeError | ValueError

text \<open>\<^verbatim>\<open>str.lower()\<close> on the code points below 256: the letters A to Z and the
  Latin-1 capitals U+00C0 to U+00DE (without the multiplication sign U+00D7) move up
  by 32, everything else stays.\<close>

definition lower_char :: "char \<Rightarrow> char" where
  "lower_char c =
     (let n = (of_char c :: nat)
      in if (65 \<le> n \<and> n \<le> 90) \<or> (192 \<le> n \<and> n \<le> 214) \<or> (216 \<le> n \<and> n \<le> 222)
         then char_of (n + 32) else c)"

definition str_lower :: "string \<Rightarrow> string" where
  "str_lower s = map lower_char s"

text \<open>\<^verbatim>\<open>s.replace(c, "")\<close> for a one-character \<open>c\<close> deletes every occurrence.\<close>

definition str_remove :: "char \<Rightarrow> string \<Rightarrow> string" where
  "str_remove c s = filter (\<lambda>x. x \<noteq> c) s"

text \<open>\<^verbatim>\<open>str.isspace\<close> on one code point below 256: TAB, LF, VT, FF, CR, the
  separators U+001C to U+001F, the space, NEL (U+0085) and the no-break space (U+00A0).\<close>

definition is_space :: "char \<Rightarrow> bool" where
  "is_space c =
     (let n = (of_char c :: nat)
      in (9 \<le> n \<and> n \<le> 13) \<or> (28 \<le> n \<and> n \<le> 32) \<or> n = 133 \<or> n = 160)"

definition str_strip :: "string \<Rightarrow> string" where
  "str_strip s = rev (dropWhile is_space (rev (dropWhile is_space s)))"

text \<open>\<^verbatim>\<open>title.lower().replace("?", "").replace(",", "").replace(" ", "").strip()\<close>
  on a string.\<close>

definition normalize_str :: "string \<Rightarrow> string" where
  "normalize_str t =
     str_strip (str_remove (CHR '' '') (str_remove (CHR '','') (str_remove (CHR ''?'') (str_lower t))))"

text \<open>\<^verbatim>\<open>normalize_title(title)\<close>: only a string has \<^verbatim>\<open>.lower\<close>; any other JSON
  value raises AttributeError.\<close>

fun normalize_title :: "pyval \<Rightarrow> py_error + string" where
  "normalize_title (PStr t) = Inr (normalize_str t)"
| "normalize_title _ = Inl AttributeError"

section \<open>Subscripts, method calls and conversions\<close>

text \<open>\<^verbatim>\<open>v[k]\<close> for a string key \<open>k\<close>: a dictionary looks the key up (KeyError when
  absent); a list or a string wants an integer index and every other value is not
  subscriptable (TypeError).\<close>

fun getitem_key :: "pyval \<Rightarrow> string \<Rightarrow> py_error + pyval" where
  "getitem_key (PDict d) k = (case map_of d k of None \<Rightarrow> Inl KeyError | Some v \<Rightarrow> Inr v)"
| "getitem_key _ k = Inl TypeError"

text \<open>\<^verbatim>\<open>v[0]\<close>: the first element of a list, the first character of a string
  (IndexError when empty); a JSON object has string keys only, so the key \<open>0\<close> is absent.\<close>

fun getitem_first :: "pyval \<Rightarrow> py_error + pyval" where
  "getitem_first (PList xs) = (case xs of [] \<Rightarrow> Inl IndexError | x # _ \<Rightarrow> Inr x)"
| "getitem_first (PStr s) = (case s of [] \<Rightarrow> Inl IndexError | c # _ \<Rightarrow> Inr (PStr [c]))"
| "getitem_first (PDict d) = Inl KeyError"
| "getitem_first _ = Inl TypeError"

text \<open>\<^verbatim>\<open>v[:n]\<close>, as the progress messages slice the titles. Only strings and
  lists can be sliced; which exception a dictionary raises depends on the version of
  Python, and nothing below depends on the kind.\<close>

fun py_slice_prefix :: "nat \<Rightarrow> pyval \<Rightarrow> py_error + pyval" where
  "py_slice_prefix n (PStr s) = Inr (PStr (take n s))"
| "py_slice_prefix n (PList xs) = Inr (PList (take n xs))"
| "py_slice_prefix n _ = Inl TypeError"

text \<open>\<^verbatim>\<open>v.get(k)\<close>: only a dictionary has the method; an absent key gives \<open>None\<close>.\<close>

fun dict_get :: "pyval \<Rightarrow> string \<Rightarrow> py_error + pyval" where
  "dict_get (PDict d) k = Inr (case map_of d k of None \<Rightarrow> PNone | Some v \<Rightarrow> v)"
| "dict_get _ k = Inl AttributeError"

text \<open>\<^verbatim>\<open>v.lower()\<close>: only a string has the method.\<close>

fun py_lower :: "pyval \<Rightarrow> py_error + string" where
  "py_lower (PStr s) = Inr (str_lower s)"
| "py_lower _ = Inl AttributeError"

text \<open>Truth value testing, as \<^verbatim>\<open>or\<close> uses it.\<close>

fun truthy :: "pyval \<Rightarrow> bool" where
  "truthy PNone = False"
| "truthy (PBool b) = b"
| "truthy (PInt i) = (i \<noteq> 0)"
| "truthy (PFloat r) = (r \<noteq> 0)"
| "truthy (PStr s) = (s \<noteq> [])"
| "truthy (PList xs) = (xs \<noteq> [])"
| "truthy (PDict d) = (d \<noteq> [])"

text \<open>\<^verbatim>\<open>for x in v\<close>: a list gives its elements, a string its characters, a
  dictionary its keys; nothing else is iterable.\<close>

fun py_iter :: "pyval \<Rightarrow> py_error + pyval list" where
  "py_iter (PList xs) = Inr xs"
| "py_iter (PStr s) = Inr (map (\<lambda>c. PStr [c]) s)"
| "py_iter (PDict d) = Inr (map PStr (remdups (map fst d)))"
| "py_iter _ = Inl TypeError"

text \<open>\<^verbatim>\<open>float(v)\<close>. Parsing a string is Python's own business and is a parameter
  here: \<open>pf s\<close> is the number the string denotes, \<open>None\<close> when \<^verbatim>\<open>float\<close> raises
  ValueError on it. An integer too large for a float (OverflowError) is outside the
  idealisation of floats as rationals.\<close>

type_synonym float_parser = "string \<Rightarrow> rat option"

fun py_float :: "float_parser \<Rightarrow> pyval \<Rightarrow> py_error + rat" where
  "py_float pf (PInt i) = Inr (of_int i)"
| "py_float pf (PFloat r) = Inr r"
| "py_float pf (PBool b) = Inr (if b then 1 else 0)"
| "py_float pf (PStr s) = (case pf s of None \<Rightarrow> Inl ValueError | Some r \<Rightarrow> Inr r)"
| "py_float pf _ = Inl TypeError"

text \<open>\<^verbatim>\<open>round(x, ndigits)\<close> rounds to the nearest multiple of \<open>10 ^ (- ndigits)\<close>,
  a tie going to the even neighbour.\<close>

definition round_half_even :: "rat \<Rightarrow> int" where
  "round_half_even x =
     (let f = \<lfloor>x\<rfloor>; d = x - of_int f
      in if d < 1 / 2 then f else if 1 / 2 < d then f + 1 else if even f then f else f + 1)"

definition py_round :: "rat \<Rightarrow> nat \<Rightarrow> rat" where
  "py_round x ndigits = of_int (round_half_even (x * 10 ^ ndigits)) / 10 ^ ndigits"

text \<open>\<^verbatim>\<open>try: body except: return handler\<close>: every exception of the body is caught.\<close>

definition try_except :: "py_error + 'a \<Rightarrow> 'a \<Rightarrow> py_error + 'a" where
  "try_except body handler = (case body of Inl e \<Rightarrow> Inr handler | Inr v \<Rightarrow> Inr v)"

section \<open>Exact matcher\<close>

record matched_pair =
  name :: pyval
  kalshi :: pyval
  polymarket :: pyval

text \<open>The dictionary comprehension
  \<^verbatim>\<open>{normalize_title(m['title']): m for m in kalshi}\<close>, one market after the other.\<close>

fun build_lookup :: "pyval list \<Rightarrow> (string \<rightharpoonup> pyval) \<Rightarrow> py_error + (string \<rightharpoonup> pyval)" where
  "build_lookup [] kalshi_lookup = Inr kalshi_lookup"
| "build_lookup (m # ms) kalshi_lookup =
     (case getitem_key m ''title'' of
        Inl e \<Rightarrow> Inl e
      | Inr t \<Rightarrow>
          (case normalize_title t of
             Inl e \<Rightarrow> Inl e
           | Inr n \<Rightarrow> build_lookup ms (kalshi_lookup(n \<mapsto> m))))"

text \<open>The loop over \<^verbatim>\<open>polymarkets\<close>; \<open>matches\<close> is the list built so far.\<close>

fun match_loop :: "(string \<rightharpoonup> pyval) \<Rightarrow> pyval list \<Rightarrow> matched_pair list \<Rightarrow> py_error + matched_pair list" where
  "match_loop kalshi_lookup [] matches = Inr matches"
| "match_loop kalshi_lookup (pm # pms) matches =
     (case getitem_key pm ''title'' of
        Inl e \<Rightarrow> Inl e
      | Inr t \<Rightarrow>
          (case normalize_title t of
             Inl e \<Rightarrow> Inl e
           | Inr norm_title \<Rightarrow>
               (case kalshi_lookup norm_title of
                  None \<Rightarrow> match_loop kalshi_lookup pms matches
                | Some k \<Rightarrow>
                    match_loop kalshi_lookup pms
                      (matches @ [\<lparr>name = t, kalshi = k, polymarket = pm\<rparr>]))))"

definition match_markets :: "pyval list \<Rightarrow> pyval list \<Rightarrow> py_error + matched_pair list" where
  "match_markets kalshi_data polymarkets =
     (case build_lookup kalshi_data Map.empty of
        Inl e \<Rightarrow> Inl e
      | Inr kalshi_lookup \<Rightarrow> match_loop kalshi_lookup polymarkets [])"

section \<open>Price extraction and evaluation\<close>

text \<open>The body of \<^verbatim>\<open>get_kalshi_yes_bid\<close>:
  \<^verbatim>\<open>float(market['order_books']['yes']['bids'][0]['price'])\<close>.\<close>

definition yes_bid_body :: "float_parser \<Rightarrow> pyval \<Rightarrow> py_error + rat" where
  "yes_bid_body pf market =
     (case getitem_key market ''order_books'' of
        Inl e \<Rightarrow> Inl e
      | Inr order_books \<Rightarrow>
     (case getitem_key order_books ''yes'' of
        Inl e \<Rightarrow> Inl e
      | Inr yes \<Rightarrow>
     (case getitem_key yes ''bids'' of
        Inl e \<Rightarrow> Inl e
      | Inr bids \<Rightarrow>
     (case getitem_first bids of
        Inl e \<Rightarrow> Inl e
      | Inr bid \<Rightarrow>
     (case getitem_key bid ''price'' of
        Inl e \<Rightarrow> Inl e
      | Inr price \<Rightarrow> py_float pf price)))))"

definition get_kalshi_yes_bid :: "float_parser \<Rightarrow> pyval \<Rightarrow> py_error + rat option" where
  "get_kalshi_yes_bid pf market =
     try_except (case yes_bid_body pf market of Inl e \<Rightarrow> Inl e | Inr x \<Rightarrow> Inr (Some x)) None"

text \<open>The loop of \<^verbatim>\<open>get_polymarket_no_price\<close> over the outcomes; when it ends
  without a \<^verbatim>\<open>return\<close>, the function returns \<open>None\<close>.\<close>

fun scan_outcomes :: "float_parser \<Rightarrow> pyval list \<Rightarrow> py_error + rat option" where
  "scan_outcomes pf [] = Inr None"
| "scan_outcomes pf (oc # ocs) =
     (case getitem_key oc ''name'' of
        Inl e \<Rightarrow> Inl e
      | Inr n \<Rightarrow>
          (case py_lower n of
             Inl e \<Rightarrow> Inl e
           | Inr l \<Rightarrow>
               if l = ''no''
               then (case getitem_key oc ''price'' of
                       Inl e \<Rightarrow> Inl e
                     | Inr price \<Rightarrow>
                         (case py_float pf price of Inl e \<Rightarrow> Inl e | Inr x \<Rightarrow> Inr (Some x)))
               else scan_outcomes pf ocs))"

definition no_price_body :: "float_parser \<Rightarrow> pyval \<Rightarrow> py_error + rat option" where
  "no_price_body pf market =
     (case getitem_key market ''outcomes'' of
        Inl e \<Rightarrow> Inl e
      | Inr outcomes \<Rightarrow>
          (case py_iter outcomes of Inl e \<Rightarrow> Inl e | Inr ocs \<Rightarrow> scan_outcomes pf ocs))"

definition get_polymarket_no_price :: "float_parser \<Rightarrow> pyval \<Rightarrow> py_error + rat option" where
  "get_polymarket_no_price pf market = try_except (no_price_body pf market) None"

text \<open>\<^verbatim>\<open>calculate_profit(total_cost, stake)\<close>; the stake is the integer the number
  input of the sidebar returns.\<close>

definition calculate_profit :: "rat \<Rightarrow> int \<Rightarrow> rat" where
  "calculate_profit total_cost stake =
     (let payout = (of_int stake :: rat);
          profit = payout - (total_cost * of_int stake)
      in py_round profit 2)"

text \<open>A row of the table. The cell \<^verbatim>\<open>Arbitrage?\<close> holds a check mark or the empty
  string (\<open>True\<close> is the check mark); the cell \<^verbatim>\<open>Profit ($)\<close> holds the profit or the
  empty string (\<open>None\<close>).\<close>

record row =
  Market :: pyval
  Kalshi_YES :: rat
  Polymarket_NO :: rat
  Total_Cost :: rat
  Arbitrage :: bool
  Profit :: "rat option"

text \<open>The body of the loop over the matches: \<open>Inr None\<close> is \<^verbatim>\<open>continue\<close>,
  \<open>Inr (Some r)\<close> appends the row \<open>r\<close>.\<close>

definition evaluate :: "float_parser \<Rightarrow> int \<Rightarrow> 'a matched_pair_scheme \<Rightarrow> py_error + row option" where
  "evaluate pf stake_amount pair =
     (case get_kalshi_yes_bid pf (kalshi pair) of
        Inl e \<Rightarrow> Inl e
      | Inr k_price \<Rightarrow>
     (case get_polymarket_no_price pf (polymarket pair) of
        Inl e \<Rightarrow> Inl e
      | Inr p_price \<Rightarrow>
     (case k_price of
        None \<Rightarrow> Inr None
      | Some k \<Rightarrow>
     (case p_price of
        None \<Rightarrow> Inr None
      | Some p \<Rightarrow>
          (let total = k + p;
               is_arb = (total < 1);
               profit = (if is_arb then Some (calculate_profit total stake_amount) else None)
           in Inr (Some \<lparr>Market = name pair,
                           Kalshi_YES = py_round k 3,
                           Polymarket_NO = py_round p 3,
                           Total_Cost = py_round total 3,
                           Arbitrage = is_arb,
                           Profit = (if is_arb then profit else None)\<rparr>))))))"

fun evaluation_loop :: "float_parser \<Rightarrow> int \<Rightarrow> matched_pair list \<Rightarrow> row list \<Rightarrow> py_error + row list" where
  "evaluation_loop pf stake_amount [] rows = Inr rows"
| "evaluation_loop pf stake_amount (pair # pairs) rows =
     (case evaluate pf stake_amount pair of
        Inl e \<Rightarrow> Inl e
      | Inr None \<Rightarrow> evaluation_loop pf stake_amount pairs rows
      | Inr (Some r) \<Rightarrow> evaluation_loop pf stake_amount pairs (rows @ [r]))"

section \<open>Result assembly\<close>

text \<open>\<^verbatim>\<open>df.sort_values(by='Total Cost')\<close> of pandas: the rows in ascending order of
  the column. The order pandas gives to rows of equal cost is not used below.\<close>

definition sort_values :: "('a row_scheme) list \<Rightarrow> ('a row_scheme) list" where
  "sort_values rows = sort_key Total_Cost rows"

datatype 'r display = Dataframe "'r list" | Message string

text \<open>One cycle of the polling loop of the first dashboard, from the two fetched
  lists to what is put on the page.\<close>

definition cycle :: "float_parser \<Rightarrow> int \<Rightarrow> pyval list \<Rightarrow> pyval list \<Rightarrow> py_error + row display" where
  "cycle pf stake_amount kalshi_data poly_data =
     (case match_markets kalshi_data poly_data of
        Inl e \<Rightarrow> Inl e
      | Inr matches \<Rightarrow>
     (case evaluation_loop pf stake_amount matches [] of
        Inl e \<Rightarrow> Inl e
      | Inr rows \<Rightarrow>
          (let df = (if rows \<noteq> [] then Some (sort_values rows) else None)
           in Inr (case df of
                     None \<Rightarrow> Message ''No matched markets or arbitrage detected.''
                   | Some d \<Rightarrow>
                       if d \<noteq> [] then Dataframe d
                       else Message ''No matched markets or arbitrage detected.''))))"

section \<open>Embedding matcher\<close>

text \<open>The embedding provider is a parameter: \<open>emb text\<close> is the vector the request
  and the reading of its response give, \<open>None\<close> when either raises. The cosine
  similarity of scikit-learn is a parameter too.\<close>

type_synonym embedder = "pyval \<Rightarrow> rat list option"
type_synonym cosine = "rat list \<Rightarrow> rat list \<Rightarrow> rat"

definition zeros :: "nat \<Rightarrow> rat list" where
  "zeros n = replicate n 0"

text \<open>\<^verbatim>\<open>get_embedding(text)\<close>: the request, the message with \<^verbatim>\<open>text[:40]\<close>, then
  the vector; any exception on the way gives the zero vector.\<close>

definition get_embedding :: "embedder \<Rightarrow> pyval \<Rightarrow> py_error + rat list" where
  "get_embedding emb text =
     try_except
       (case emb text of
          None \<Rightarrow> Inl ValueError
        | Some v \<Rightarrow> (case py_slice_prefix 40 text of Inl e \<Rightarrow> Inl e | Inr _ \<Rightarrow> Inr v))
       (zeros 1536)"

text \<open>\<^verbatim>\<open>market.get('question') or market.get('title') or market.get('slug') or 'unknown'\<close>\<close>

definition extract_polymarket_title :: "pyval \<Rightarrow> py_error + pyval" where
  "extract_polymarket_title market =
     (case dict_get market ''question'' of
        Inl e \<Rightarrow> Inl e
      | Inr q \<Rightarrow>
          if truthy q then Inr q
          else (case dict_get market ''title'' of
                  Inl e \<Rightarrow> Inl e
                | Inr t \<Rightarrow>
                    if truthy t then Inr t
                    else (case dict_get market ''slug'' of
                            Inl e \<Rightarrow> Inl e
                          | Inr s \<Rightarrow> if truthy s then Inr s else Inr (PStr ''unknown''))))"

record matched_pair_ai = matched_pair +
  similarity :: rat

text \<open>The inner loop of \<^verbatim>\<open>match_markets_ai\<close> over \<^verbatim>\<open>polymarkets\<close>, for one Kalshi
  market \<open>k\<close> with its title and embedding. The comparison message slices both titles.\<close>

fun ai_inner ::
  "embedder \<Rightarrow> cosine \<Rightarrow> pyval \<Rightarrow> pyval \<Rightarrow> rat list \<Rightarrow> pyval list \<Rightarrow> matched_pair_ai list
     \<Rightarrow> py_error + matched_pair_ai list" where
  "ai_inner emb cs k k_title k_embed [] matches = Inr matches"
| "ai_inner emb cs k k_title k_embed (p # ps) matches =
     (case extract_polymarket_title p of
        Inl e \<Rightarrow> Inl e
      | Inr p_title \<Rightarrow>
     (case get_embedding emb p_title of
        Inl e \<Rightarrow> Inl e
      | Inr p_embed \<Rightarrow>
          (let sim = cs k_embed p_embed
           in (case py_slice_prefix 30 k_title of
                 Inl e \<Rightarrow> Inl e
               | Inr _ \<Rightarrow>
              (case py_slice_prefix 30 p_title of
                 Inl e \<Rightarrow> Inl e
               | Inr _ \<Rightarrow>
                   if 9 / 10 < sim
                   then ai_inner emb cs k k_title k_embed ps
                          (matches @ [\<lparr>name = k_title, kalshi = k, polymarket = p,
                                       similarity = py_round sim 3\<rparr>])
                   else ai_inner emb cs k k_title k_embed ps matches)))))"

fun ai_outer ::
  "embedder \<Rightarrow> cosine \<Rightarrow> pyval list \<Rightarrow> pyval list \<Rightarrow> matched_pair_ai list
     \<Rightarrow> py_error + matched_pair_ai list" where
  "ai_outer emb cs [] polymarkets matches = Inr matches"
| "ai_outer emb cs (k # ks) polymarkets matches =
     (case getitem_key k ''title'' of
        Inl e \<Rightarrow> Inl e
      | Inr k_title \<Rightarrow>
     (case get_embedding emb k_title of
        Inl e \<Rightarrow> Inl e
      | Inr k_embed \<Rightarrow>
     (case ai_inner emb cs k k_title k_embed polymarkets matches of
        Inl e \<Rightarrow> Inl e
      | Inr matches' \<Rightarrow> ai_outer emb cs ks polymarkets matches')))"

definition match_markets_ai ::
  "embedder \<Rightarrow> cosine \<Rightarrow> pyval list \<Rightarrow> pyval list \<Rightarrow> py_error + matched_pair_ai list" where
  "match_markets_ai emb cs kalshi_data polymarkets = ai_outer emb cs kalshi_data polymarkets []"

text \<open>The rows of the second dashboard carry the similarity of the pair.\<close>

record row_ai = row +
  Similarity :: rat

definition evaluate_ai :: "float_parser \<Rightarrow> int \<Rightarrow> matched_pair_ai \<Rightarrow> py_error + row_ai option" where
  "evaluate_ai pf stake_amount pair =
     (case get_kalshi_yes_bid pf (kalshi pair) of
        Inl e \<Rightarrow> Inl e
      | Inr k_price \<Rightarrow>
     (case get_polymarket_no_price pf (polymarket pair) of
        Inl e \<Rightarrow> Inl e
      | Inr p_price \<Rightarrow>
     (case k_price of
        None \<Rightarrow> Inr None
      | Some k \<Rightarrow>
     (case p_price of
        None \<Rightarrow> Inr None
      | Some p \<Rightarrow>
          (let total = k + p;
               is_arb = (total < 1);
               profit = (if is_arb then Some (calculate_profit total stake_amount) else None)
           in Inr (Some \<lparr>Market = name pair,
                           Kalshi_YES = py_round k 3,
                           Polymarket_NO = py_round p 3,
                           Total_Cost = py_round total 3,
                           Arbitrage = is_arb,
                           Profit = (if is_arb then profit else None),
                           Similarity = similarity pair\<rparr>))))))"

fun evaluation_loop_ai ::
  "float_parser \<Rightarrow> int \<Rightarrow> matched_pair_ai list \<Rightarrow> row_ai list \<Rightarrow> py_error + row_ai list" where
  "evaluation_loop_ai pf stake_amount [] rows = Inr rows"
| "evaluation_loop_ai pf stake_amount (pair # pairs) rows =
     (case evaluate_ai pf stake_amount pair of
        Inl e \<Rightarrow> Inl e
      | Inr None \<Rightarrow> evaluation_loop_ai pf stake_amount pairs rows
      | Inr (Some r) \<Rightarrow> evaluation_loop_ai pf stake_amount pairs (rows @ [r]))"

text \<open>The single run of the second dashboard.\<close>

definition run_ai ::
  "embedder \<Rightarrow> cosine \<Rightarrow> float_parser \<Rightarrow> int \<Rightarrow> pyval list \<Rightarrow> pyval list \<Rightarrow> py_error + row_ai display" where
  "run_ai emb cs pf stake_amount kalshi_data poly_data =
     (case match_markets_ai emb cs kalshi_data poly_data of
        Inl e \<Rightarrow> Inl e
      | Inr matches \<Rightarrow>
     (case evaluation_loop_ai pf stake_amount matches [] of
        Inl e \<Rightarrow> Inl e
      | Inr rows \<Rightarrow>
          Inr (if rows \<noteq> [] then Dataframe (sort_values rows)
               else Message ''No matched markets or arbitrage detected.'')))"

section \<open>Descriptions the code is compared with\<close>

text \<open>The normalized title of a market, when it has a string under \<^verbatim>\<open>title\<close>.\<close>

definition norm_of :: "pyval \<Rightarrow> string option" where
  "norm_of m =
     (case getitem_key m ''title'' of
        Inl e \<Rightarrow> None
      | Inr t \<Rightarrow> (case normalize_title t of Inl e \<Rightarrow> None | Inr n \<Rightarrow> Some n))"

text \<open>The exact matcher as the specification words it: a mapping from normalized
  title to source-A market in which the last market with a title wins, and one pair for
  each source-B market, in order, whose normalized title the mapping holds.\<close>

definition last_write_mapping :: "pyval list \<Rightarrow> (string \<rightharpoonup> pyval)" where
  "last_write_mapping A n =
     (case filter (\<lambda>m. norm_of m = Some n) A of [] \<Rightarrow> None | m # ms \<Rightarrow> Some (last (m # ms)))"

definition exact_pairs_of :: "pyval list \<Rightarrow> pyval \<Rightarrow> matched_pair list" where
  "exact_pairs_of A pm =
     (case norm_of pm of
        None \<Rightarrow> []
      | Some n \<Rightarrow>
          (case last_write_mapping A n of
             None \<Rightarrow> []
           | Some k \<Rightarrow>
               [\<lparr>name = (case getitem_key pm ''title'' of Inr t \<Rightarrow> t | Inl e \<Rightarrow> PNone),
                 kalshi = k, polymarket = pm\<rparr>]))"

definition exact_match_spec :: "pyval list \<Rightarrow> pyval list \<Rightarrow> matched_pair list" where
  "exact_match_spec A B = concat (map (exact_pairs_of A) B)"

text \<open>The title of a source-B market as the specification words it: the first truthy
  value among the three fields, else the literal.\<close>

definition title_fields :: "(string \<times> pyval) list \<Rightarrow> pyval list" where
  "title_fields d =
     map (\<lambda>k. case map_of d k of None \<Rightarrow> PNone | Some v \<Rightarrow> v) [''question'', ''title'', ''slug'']"

definition first_truthy_or_unknown :: "(string \<times> pyval) list \<Rightarrow> pyval" where
  "first_truthy_or_unknown d =
     (case filter truthy (title_fields d) of [] \<Rightarrow> PStr ''unknown'' | v # _ \<Rightarrow> v)"

text \<open>The vector \<^verbatim>\<open>get_embedding\<close> returns for a text.\<close>

definition embedding_vector :: "embedder \<Rightarrow> pyval \<Rightarrow> rat list" where
  "embedding_vector emb text =
     (case emb text of
        None \<Rightarrow> zeros 1536
      | Some v \<Rightarrow> (case py_slice_prefix 40 text of Inl e \<Rightarrow> zeros 1536 | Inr _ \<Rightarrow> v))"

text \<open>The embedding matcher as the specification words it: for every combination of
  one source-A market and one source-B market, the cosine similarity of the two title
  embeddings, and a pair carrying the similarity when it exceeds the threshold.\<close>

definition ai_pairs_of :: "embedder \<Rightarrow> cosine \<Rightarrow> pyval \<Rightarrow> pyval \<Rightarrow> matched_pair_ai list" where
  "ai_pairs_of emb cs k p =
     (case getitem_key k ''title'' of
        Inl e \<Rightarrow> []
      | Inr kt \<Rightarrow>
          (case extract_polymarket_title p of
             Inl e \<Rightarrow> []
           | Inr pt \<Rightarrow>
               (let sim = cs (embedding_vector emb kt) (embedding_vector emb pt)
                in if 9 / 10 < sim
                   then [\<lparr>name = kt, kalshi = k, polymarket = p, similarity = py_round sim 3\<rparr>]
                   else [])))"

definition ai_match_spec :: "embedder \<Rightarrow> cosine \<Rightarrow> pyval list \<Rightarrow> pyval list \<Rightarrow> matched_pair_ai list" where
  "ai_match_spec emb cs A B = concat (map (\<lambda>k. concat (map (ai_pairs_of emb cs k) B)) A)"

text \<open>The embedding matcher with each title embedded once per pass: a cache from
  text to vector is consulted first and filled on a miss; everything else is the
  matcher as written.\<close>

type_synonym cache = "(pyval \<times> rat list) list"

definition get_embedding_cached :: "embedder \<Rightarrow> cache \<Rightarrow> pyval \<Rightarrow> py_error + (rat list \<times> cache)" where
  "get_embedding_cached emb c text =
     (case map_of c text of
        Some v \<Rightarrow> Inr (v, c)
      | None \<Rightarrow>
          (case get_embedding emb text of Inl e \<Rightarrow> Inl e | Inr v \<Rightarrow> Inr (v, (text, v) # c)))"

fun ai_inner_cached ::
  "embedder \<Rightarrow> cosine \<Rightarrow> pyval \<Rightarrow> pyval \<Rightarrow> rat list \<Rightarrow> pyval list \<Rightarrow> matched_pair_ai list \<Rightarrow> cache
     \<Rightarrow> py_error + (matched_pair_ai list \<times> cache)" where
  "ai_inner_cached emb cs k k_title k_embed [] matches c = Inr (matches, c)"
| "ai_inner_cached emb cs k k_title k_embed (p # ps) matches c =
     (case extract_polymarket_title p of
        Inl e \<Rightarrow> Inl e
      | Inr p_title \<Rightarrow>
     (case get_embedding_cached emb c p_title of
        Inl e \<Rightarrow> Inl e
      | Inr (p_embed, c') \<Rightarrow>
          (let sim = cs k_embed p_embed
           in (case py_slice_prefix 30 k_title of
                 Inl e \<Rightarrow> Inl e
               | Inr _ \<Rightarrow>
              (case py_slice_prefix 30 p_title of
                 Inl e \<Rightarrow> Inl e
               | Inr _ \<Rightarrow>
                   if 9 / 10 < sim
                   then ai_inner_cached emb cs k k_title k_embed ps
                          (matches @ [\<lparr>name = k_title, kalshi = k, polymarket = p,
                                       similarity = py_round sim 3\<rparr>]) c'
                   else ai_inner_cached emb cs k k_title k_embed ps matches c')))))"

fun ai_outer_cached ::
  "embedder \<Rightarrow> cosine \<Rightarrow> pyval list \<Rightarrow> pyval list \<Rightarrow> matched_pair_ai list \<Rightarrow> cache
     \<Rightarrow> py_error + (matched_pair_ai list \<times> cache)" where
  "ai_outer_cached emb cs [] polymarkets matches c = Inr (matches, c)"
| "ai_outer_cached emb cs (k # ks) polymarkets matches c =
     (case getitem_key k ''title'' of
        Inl e \<Rightarrow> Inl e
      | Inr k_title \<Rightarrow>
     (case get_embedding_cached emb c k_title of
        Inl e \<Rightarrow> Inl e
      | Inr (k_embed, c') \<Rightarrow>
     (case ai_inner_cached emb cs k k_title k_embed polymarkets matches c' of
        Inl e \<Rightarrow> Inl e
      | Inr (matches', c'') \<Rightarrow> ai_outer_cached emb cs ks polymarkets matches' c'')))"

definition match_markets_ai_cached ::
  "embedder \<Rightarrow> cosine \<Rightarrow> pyval list \<Rightarrow> pyval list \<Rightarrow> py_error + matched_pair_ai list" where
  "match_markets_ai_cached emb cs kalshi_data polymarkets =
     (case ai_outer_cached emb cs kalshi_data polymarkets [] [] of
        Inl e \<Rightarrow> Inl e
      | Inr (matches, c) \<Rightarrow> Inr matches)"

text \<open>What holds of the cache throughout a pass: a text is entered once, with the
  vector \<^verbatim>\<open>get_embedding\<close> returns for it.\<close>

definition cache_ok :: "embedder \<Rightarrow> cache \<Rightarrow> bool" where
  "cache_ok emb c \<longleftrightarrow>
     distinct (map fst c) \<and> list_all (\<lambda>(t, v). v = embedding_vector emb t) c"

text \<open>The rows of the pairs that the evaluation \<open>ev\<close> does not skip, in order.\<close>

definition collected :: "('p \<Rightarrow> py_error + 'r option) \<Rightarrow> 'p list \<Rightarrow> 'r list" where
  "collected ev pairs = concat (map (\<lambda>pair. case ev pair of Inr (Some r) \<Rightarrow> [r] | _ \<Rightarrow> []) pairs)"

section \<open>Concrete inputs\<close>

definition rain_kalshi :: pyval where
  "rain_kalshi =
     PDict [(''title'', PStr ''Will it rain tomorrow?''),
            (''order_books'',
               PDict [(''yes'', PDict [(''bids'', PList [PDict [(''price'', PFloat (2 / 5))]])])])]"

definition rain_polymarket :: pyval where
  "rain_polymarket =
     PDict [(''title'', PStr ''Will it rain tomorrow''),
            (''outcomes'', PList [PDict [(''name'', PStr ''No''), (''price'', PFloat (11 / 20))]])]"

definition rain_question :: pyval where
  "rain_question = PDict [(''question'', PStr ''Will it rain tomorrow?'')]"

text \<open>Unit vectors: those of the texts \<^verbatim>\<open>a\<close> and \<^verbatim>\<open>b\<close> have the cosine
  \<open>2183 / 2425\<close>, a little above \<open>0.9002\<close>, and every other text is orthogonal to
  \<^verbatim>\<open>a\<close>. The cosine similarity on unit vectors is their inner product.\<close>

definition unit_emb :: embedder where
  "unit_emb text =
     (if text = PStr ''a'' then Some [1, 0]
      else if text = PStr ''b'' then Some [2183 / 2425, 1056 / 2425]
      else Some [0, 1])"

definition unit_cosine :: cosine where
  "unit_cosine u v = sum_list (map2 (*) u v)"

text \<open>A parser that accepts no string, for inputs whose prices are numbers.\<close>

definition numbers_only :: float_parser where
  "numbers_only s = None"

definition yes_no_market :: pyval where
  "yes_no_market =
     PDict [(''outcomes'',
             PList [PDict [(''name'', PStr ''Yes''), (''price'', PFloat (9 / 20))],
                    PDict [(''name'', PStr ''NO''), (''price'', PFloat (11 / 20))]])]"

text \<open>Markets whose titles all normalize to \<^verbatim>\<open>rain\<close>.\<close>

definition ka1 :: pyval where
  "ka1 = PDict [(''title'', PStr ''Rain?''), (''ticker'', PInt 1)]"

definition ka2 :: pyval where
  "ka2 = PDict [(''title'', PStr ''rain''), (''ticker'', PInt 2)]"

definition pb1 :: pyval where
  "pb1 = PDict [(''title'', PStr ''RAIN'')]"

definition pb2 :: pyval where
  "pb2 = PDict [(''title'', PStr ''Rain, ?'')]"

definition mkt_a :: pyval where
  "mkt_a = PDict [(''title'', PStr ''a'')]"

definition mkt_b :: pyval where
  "mkt_b = PDict [(''title'', PStr ''b'')]"

definition mkt_c :: pyval where
  "mkt_c = PDict [(''title'', PStr ''c'')]"

definition mkt_untitled :: pyval where
  "mkt_untitled = PDict [(''title'', PStr ''''), (''slug'', PNone)]"

definition sun_kalshi :: pyval where
  "sun_kalshi =
     PDict [(''title'', PStr ''Sun?''),
            (''order_books'',
               PDict [(''yes'', PDict [(''bids'', PList [PDict [(''price'', PFloat (3 / 5))]])])])]"

definition sun_polymarket :: pyval where
  "sun_polymarket =
     PDict [(''title'', PStr ''sun''),
            (''outcomes'', PList [PDict [(''name'', PStr ''No''), (''price'', PFloat (11 / 20))]])]"

section \<open>Title normalization\<close>

lemma of_char_lower_char:
  "(of_char (lower_char c) :: nat) =
     (let n = of_char c in
      if (65 \<le> n \<and> n \<le> 90) \<or> (192 \<le> n \<and> n \<le> 214) \<or> (216 \<le> n \<and> n \<le> 222)
      then n + 32 else n)"
  by (simp add: lower_char_def Let_def)

lemma lower_char_idem: "lower_char (lower_char c) = lower_char c"
proof -
  have "(of_char (lower_char (lower_char c)) :: nat) = of_char (lower_char c)"
    unfolding of_char_lower_char [of "lower_char c"]
    by (simp add: of_char_lower_char Let_def)
  then show ?thesis by (rule injD [OF inj_of_char])
qed

lemma dropWhile_id_hd: "xs = [] \<or> \<not> P (hd xs) \<Longrightarrow> dropWhile P xs = xs"
  by (cases xs) auto

lemma strip_fixed:
  "(s = [] \<or> (\<not> is_space (hd s) \<and> \<not> is_space (last s))) \<Longrightarrow> str_strip s = s"
proof (cases s)
  case Nil
  then show ?thesis by (simp add: str_strip_def)
next
  case (Cons a list)
  assume "s = [] \<or> (\<not> is_space (hd s) \<and> \<not> is_space (last s))"
  with Cons have h: "\<not> is_space (hd s)" and l: "\<not> is_space (last s)" by auto
  have 1: "dropWhile is_space s = s" using Cons h by simp
  have "rev s \<noteq> []" using Cons by simp
  moreover have "hd (rev s) = last s" using Cons by (simp add: hd_rev)
  ultimately have 2: "dropWhile is_space (rev s) = rev s"
    using l by (intro dropWhile_id_hd) simp
  show ?thesis by (simp add: str_strip_def 1 2)
qed

lemma strip_ends:
  "str_strip s = [] \<or> (\<not> is_space (hd (str_strip s)) \<and> \<not> is_space (last (str_strip s)))"
proof -
  define u where "u = dropWhile is_space s"
  define v where "v = dropWhile is_space (rev u)"
  have s: "str_strip s = rev v" by (simp add: str_strip_def u_def v_def)
  show ?thesis
  proof (cases "v = []")
    case True
    then show ?thesis by (simp add: s)
  next
    case False
    then have hv: "\<not> is_space (hd v)" unfolding v_def by (rule hd_dropWhile)
    have "u \<noteq> []" using False by (auto simp: v_def)
    then have hu: "\<not> is_space (hd u)" unfolding u_def by (rule hd_dropWhile)
    obtain w where w: "rev u = w @ v" 
      unfolding v_def by (metis takeWhile_dropWhile_id)
    then have "u = rev v @ rev w" by (metis rev_append rev_rev_ident)
    then have "hd (rev v) = hd u" using False by simp
    then show ?thesis using hv hu False by (simp add: s last_rev)
  qed
qed

lemma str_strip_idem: "str_strip (str_strip s) = str_strip s"
  by (rule strip_fixed) (rule strip_ends)

lemma set_str_strip: "set (str_strip s) \<subseteq> set s"
  unfolding str_strip_def
  by (metis set_dropWhileD set_rev subsetI)

lemma str_lower_fixed: "\<forall>c \<in> set s. lower_char c = c \<Longrightarrow> str_lower s = s"
  by (simp add: str_lower_def map_idI)

lemma str_remove_absent: "c \<notin> set s \<Longrightarrow> str_remove c s = s"
  by (auto simp: str_remove_def filter_id_conv)

lemma set_str_remove: "set (str_remove c s) = set s - {c}"
  by (auto simp: str_remove_def)

lemma normalize_str_idem: "normalize_str (normalize_str t) = normalize_str t"
proof -
  define X where "X = str_remove (CHR '' '') (str_remove (CHR '','') (str_remove (CHR ''?'') (str_lower t)))"
  define n where "n = str_strip X"
  have n: "normalize_str t = n" by (simp add: normalize_str_def X_def n_def)
  have sub: "set n \<subseteq> set X" unfolding n_def by (rule set_str_strip)
  have X_low: "set X \<subseteq> lower_char ` set t"
    by (auto simp: X_def set_str_remove str_lower_def)
  have low: "str_lower n = n"
    using sub X_low by (intro str_lower_fixed) (auto simp: lower_char_idem)
  have no: "CHR ''?'' \<notin> set n" "CHR '','' \<notin> set n" "CHR '' '' \<notin> set n"
    using sub by (auto simp: X_def set_str_remove)
  have "normalize_str n = str_strip n"
    by (simp add: normalize_str_def low no str_remove_absent)
  also have "\<dots> = n" unfolding n_def by (rule str_strip_idem)
  finally show ?thesis by (simp add: n)
qed

text \<open>
  C7. On every title string, normalizing returns a string, and normalizing that string
  again returns it unchanged: \<^verbatim>\<open>normalize(normalize(t)) == normalize(t)\<close>, where
  normalizing lowercases, deletes the characters \<^verbatim>\<open>?\<close>, \<^verbatim>\<open>,\<close> and the
  spaces, then trims.
\<close>

theorem normalize_title_idempotent:
  "normalize_title (PStr t) = Inr (normalize_str t) \<and>
   normalize_title (PStr (normalize_str t)) = Inr (normalize_str t) \<and>
   normalize_str t =
     str_strip (str_remove (CHR '' '') (str_remove (CHR '','') (str_remove (CHR ''?'') (str_lower t))))"
  by (simp add: normalize_str_idem) (simp add: normalize_str_def)

section \<open>Price extraction and evaluation\<close>

lemma get_kalshi_yes_bid_eq:
  "get_kalshi_yes_bid pf m = Inr (case yes_bid_body pf m of Inl e \<Rightarrow> None | Inr x \<Rightarrow> Some x)"
  by (simp add: get_kalshi_yes_bid_def try_except_def split: sum.splits)

lemma get_polymarket_no_price_eq:
  "get_polymarket_no_price pf m = Inr (case no_price_body pf m of Inl e \<Rightarrow> None | Inr r \<Rightarrow> r)"
  by (simp add: get_polymarket_no_price_def try_except_def split: sum.splits)

lemma evaluate_eq:
  "evaluate pf stake pair =
     (case (get_kalshi_yes_bid pf (kalshi pair), get_polymarket_no_price pf (polymarket pair)) of
        (Inr (Some a), Inr (Some b)) \<Rightarrow>
          Inr (Some \<lparr>Market = name pair, Kalshi_YES = py_round a 3, Polymarket_NO = py_round b 3,
                      Total_Cost = py_round (a + b) 3, Arbitrage = (a + b < 1),
                      Profit = (if a + b < 1
                                then Some (py_round (of_int stake - (a + b) * of_int stake) 2)
                                else None)\<rparr>)
      | _ \<Rightarrow> Inr None)"
  by (simp add: evaluate_def get_kalshi_yes_bid_eq get_polymarket_no_price_eq calculate_profit_def Let_def
      split: option.splits)

lemma evaluate_total: "\<exists>r. evaluate pf stake pair = Inr r"
  by (simp add: evaluate_eq split: sum.splits option.splits prod.splits)

lemma evaluation_loop_eq:
  "evaluation_loop pf stake pairs rows =
     Inr (rows @ concat (map (\<lambda>pair. case evaluate pf stake pair of Inr (Some r) \<Rightarrow> [r] | _ \<Rightarrow> []) pairs))"
proof (induction pairs arbitrary: rows)
  case Nil
  show ?case by simp
next
  case (Cons pair pairs)
  obtain r where r: "evaluate pf stake pair = Inr r"
    using evaluate_total by blast
  show ?case by (cases r) (simp_all add: r Cons.IH)
qed

lemma rain_yes_bid: "get_kalshi_yes_bid pf rain_kalshi = Inr (Some (2 / 5))"
  by (simp add: get_kalshi_yes_bid_eq yes_bid_body_def rain_kalshi_def)

lemma str_lower_No: "str_lower ''No'' = ''no''"
  by code_simp

lemma rain_no_price: "get_polymarket_no_price pf rain_polymarket = Inr (Some (11 / 20))"
  by (simp add: get_polymarket_no_price_eq no_price_body_def rain_polymarket_def str_lower_No)

text \<open>
  C1. For every matched pair and stake, the evaluation raises nothing and emits no row
  when either extracted price is null; otherwise it emits one row whose total is
  \<open>priceA + priceB\<close> (shown rounded to three decimals), whose arbitrage flag is
  \<open>total < 1.0\<close>, and whose profit is \<open>round(stake - total * stake, 2)\<close> when the flag
  holds and absent otherwise; the loop collects exactly these rows, in order. With the
  prices 0.40 and 0.55 and the stake 100, the row has total 0.95, the flag set and
  profit 5.00.
\<close>

theorem evaluate_row:
  "evaluate pf stake pair =
     (case (get_kalshi_yes_bid pf (kalshi pair), get_polymarket_no_price pf (polymarket pair)) of
        (Inr (Some a), Inr (Some b)) \<Rightarrow>
          Inr (Some \<lparr>Market = name pair, Kalshi_YES = py_round a 3, Polymarket_NO = py_round b 3,
                      Total_Cost = py_round (a + b) 3, Arbitrage = (a + b < 1),
                      Profit = (if a + b < 1
                                then Some (py_round (of_int stake - (a + b) * of_int stake) 2)
                                else None)\<rparr>)
      | _ \<Rightarrow> Inr None) \<and>
   evaluation_loop pf stake pairs [] =
     Inr (concat (map (\<lambda>pair. case evaluate pf stake pair of Inr (Some r) \<Rightarrow> [r] | _ \<Rightarrow> []) pairs)) \<and>
   evaluate pf 100 \<lparr>name = PStr ''rain'', kalshi = rain_kalshi, polymarket = rain_polymarket\<rparr> =
     Inr (Some \<lparr>Market = PStr ''rain'', Kalshi_YES = 2 / 5, Polymarket_NO = 11 / 20,
                 Total_Cost = 19 / 20, Arbitrage = True, Profit = Some 5\<rparr>)"
proof (intro conjI)
  show "evaluate pf 100 \<lparr>name = PStr ''rain'', kalshi = rain_kalshi, polymarket = rain_polymarket\<rparr> =
     Inr (Some \<lparr>Market = PStr ''rain'', Kalshi_YES = 2 / 5, Polymarket_NO = 11 / 20,
                 Total_Cost = 19 / 20, Arbitrage = True, Profit = Some 5\<rparr>)"
    by (simp add: evaluate_eq rain_yes_bid rain_no_price)
      (simp add: py_round_def round_half_even_def Let_def)
qed (simp_all add: evaluate_eq evaluation_loop_eq)

lemma getitem_key_Inr: "getitem_key v k = Inr x \<longleftrightarrow> (\<exists>d. v = PDict d \<and> map_of d k = Some x)"
  by (cases v) (auto split: option.splits)

lemma getitem_first_Inr:
  "getitem_first v = Inr x \<longleftrightarrow>
     (\<exists>xs. v = PList (x # xs)) \<or> (\<exists>c s. v = PStr (c # s) \<and> x = PStr [c])"
  by (cases v) (auto split: list.splits)

lemma py_lower_Inr: "py_lower v = Inr l \<longleftrightarrow> (\<exists>s. v = PStr s \<and> l = str_lower s)"
  by (cases v) auto

lemma yes_bid_body_Inr:
  "yes_bid_body pf m = Inr x \<longleftrightarrow>
     (\<exists>d ob yes b bids price.
        m = PDict d \<and> map_of d ''order_books'' = Some (PDict ob) \<and>
        map_of ob ''yes'' = Some (PDict yes) \<and>
        map_of yes ''bids'' = Some (PList (PDict b # bids)) \<and>
        map_of b ''price'' = Some price \<and> py_float pf price = Inr x)"
  unfolding yes_bid_body_def
  by (auto simp: getitem_key_Inr getitem_first_Inr split: sum.splits)

lemma lower_char_eq_iff:
  assumes "(of_char a :: nat) = n" "(of_char b :: nat) = n - 32" "97 \<le> n" "n \<le> 122"
  shows "lower_char c = a \<longleftrightarrow> c = a \<or> c = b"
proof -
  have "lower_char c = a \<longleftrightarrow> (of_char (lower_char c) :: nat) = of_char a"
    by (simp only: of_char_eq_iff)
  also have "\<dots> \<longleftrightarrow> (of_char c :: nat) = n \<or> (of_char c :: nat) = n - 32"
    using assms(3,4) by (auto simp: of_char_lower_char Let_def assms(1))
  finally have 1: "lower_char c = a \<longleftrightarrow> (of_char c :: nat) = n \<or> (of_char c :: nat) = n - 32" .
  have 2: "(of_char c :: nat) = n \<longleftrightarrow> c = a"
    unfolding assms(1) [symmetric] by simp
  have 3: "(of_char c :: nat) = n - 32 \<longleftrightarrow> c = b"
    unfolding assms(2) [symmetric] by simp
  show ?thesis by (simp only: 1 2 3)
qed

lemma lower_char_n: "lower_char c = CHR ''n'' \<longleftrightarrow> c = CHR ''n'' \<or> c = CHR ''N''"
  by (rule lower_char_eq_iff [where n = 110]) simp_all

lemma lower_char_o: "lower_char c = CHR ''o'' \<longleftrightarrow> c = CHR ''o'' \<or> c = CHR ''O''"
  by (rule lower_char_eq_iff [where n = 111]) simp_all

lemma str_lower_no: "str_lower s = ''no'' \<longleftrightarrow> s \<in> {''no'', ''No'', ''nO'', ''NO''}"
proof (cases s)
  case Nil
  then show ?thesis by (simp add: str_lower_def)
next
  case (Cons a s')
  show ?thesis
  proof (cases s')
    case Nil
    with Cons show ?thesis by (simp add: str_lower_def)
  next
    case (Cons b s'')
    with \<open>s = a # s'\<close> show ?thesis
      by (auto simp: str_lower_def lower_char_n lower_char_o)
  qed
qed

lemma scan_outcomes_Some:
  "scan_outcomes pf ocs = Inr (Some x) \<longleftrightarrow>
     (\<exists>pre oc post nm price.
        ocs = pre @ PDict oc # post \<and>
        (\<forall>q \<in> set pre. \<exists>qd qn. q = PDict qd \<and> map_of qd ''name'' = Some (PStr qn) \<and> str_lower qn \<noteq> ''no'') \<and>
        map_of oc ''name'' = Some (PStr nm) \<and> str_lower nm = ''no'' \<and>
        map_of oc ''price'' = Some price \<and> py_float pf price = Inr x)"
  (is "?L ocs \<longleftrightarrow> ?R ocs")
proof (induction ocs)
  case Nil
  show ?case by simp
next
  case (Cons a ocs)
  show ?case
  proof (cases "\<exists>qd qn. a = PDict qd \<and> map_of qd ''name'' = Some (PStr qn)")
    case False
    then have "\<not> ?L (a # ocs)"
      by (auto simp: getitem_key_Inr py_lower_Inr split: sum.splits)
    moreover have "\<not> ?R (a # ocs)"
    proof
      assume "?R (a # ocs)"
      then obtain pre oc post nm price where
        eq: "a # ocs = pre @ PDict oc # post" and
        pre: "\<forall>q \<in> set pre. \<exists>qd qn. q = PDict qd \<and> map_of qd ''name'' = Some (PStr qn) \<and> str_lower qn \<noteq> ''no''" and
        nm: "map_of oc ''name'' = Some (PStr nm)" by blast
      show False
      proof (cases pre)
        case Nil
        with eq nm False show False by simp
      next
        case (Cons q pre')
        with eq pre False show False by auto
      qed
    qed
    ultimately show ?thesis by simp
  next
    case True
    then obtain qd qn where a: "a = PDict qd" and qn: "map_of qd ''name'' = Some (PStr qn)" by blast
    show ?thesis
    proof (cases "str_lower qn = ''no''")
      case True
      have L: "?L (a # ocs) \<longleftrightarrow> (\<exists>price. map_of qd ''price'' = Some price \<and> py_float pf price = Inr x)"
        using a qn True by (auto simp: getitem_key_Inr split: sum.splits option.splits)
      have R: "?R (a # ocs) \<longleftrightarrow> (\<exists>price. map_of qd ''price'' = Some price \<and> py_float pf price = Inr x)"
      proof
        assume "?R (a # ocs)"
        then obtain pre oc post nm price where
          eq: "a # ocs = pre @ PDict oc # post" and
          pre: "\<forall>q \<in> set pre. \<exists>qd qn. q = PDict qd \<and> map_of qd ''name'' = Some (PStr qn) \<and> str_lower qn \<noteq> ''no''" and
          rest: "map_of oc ''price'' = Some price" "py_float pf price = Inr x" by blast
        have "pre = []"
        proof (cases pre)
          case (Cons q pre')
          with eq pre a qn True show ?thesis by auto
        qed simp
        with eq a have "oc = qd" by simp
        with rest show "\<exists>price. map_of qd ''price'' = Some price \<and> py_float pf price = Inr x" by blast
      next
        assume "\<exists>price. map_of qd ''price'' = Some price \<and> py_float pf price = Inr x"
        then obtain price where "map_of qd ''price'' = Some price" "py_float pf price = Inr x" by blast
        then have "a # ocs = [] @ PDict qd # ocs \<and>
            (\<forall>q \<in> set []. \<exists>qd qn. q = PDict qd \<and> map_of qd ''name'' = Some (PStr qn) \<and> str_lower qn \<noteq> ''no'') \<and>
            map_of qd ''name'' = Some (PStr qn) \<and> str_lower qn = ''no'' \<and>
            map_of qd ''price'' = Some price \<and> py_float pf price = Inr x"
          using a qn True by simp
        then show "?R (a # ocs)" by blast
      qed
      show ?thesis using L R by simp
    next
      case False
      have L: "?L (a # ocs) \<longleftrightarrow> ?L ocs"
        using a qn False by simp
      have R: "?R (a # ocs) \<longleftrightarrow> ?R ocs"
      proof
        assume "?R (a # ocs)"
        then obtain pre oc post nm price where
          eq: "a # ocs = pre @ PDict oc # post" and
          pre: "\<forall>q \<in> set pre. \<exists>qd qn. q = PDict qd \<and> map_of qd ''name'' = Some (PStr qn) \<and> str_lower qn \<noteq> ''no''" and
          rest: "map_of oc ''name'' = Some (PStr nm)" "str_lower nm = ''no''"
            "map_of oc ''price'' = Some price" "py_float pf price = Inr x" by blast
        show "?R ocs"
        proof (cases pre)
          case Nil
          with eq a qn False rest show ?thesis by auto
        next
          case (Cons q pre')
          with eq have "ocs = pre' @ PDict oc # post" by simp
          moreover from Cons pre have "\<forall>q \<in> set pre'. \<exists>qd qn. q = PDict qd \<and> map_of qd ''name'' = Some (PStr qn) \<and> str_lower qn \<noteq> ''no''"
            by simp
          ultimately show ?thesis using rest by blast
        qed
      next
        assume "?R ocs"
        then obtain pre oc post nm price where
          eq: "ocs = pre @ PDict oc # post" and
          pre: "\<forall>q \<in> set pre. \<exists>qd qn. q = PDict qd \<and> map_of qd ''name'' = Some (PStr qn) \<and> str_lower qn \<noteq> ''no''" and
          rest: "map_of oc ''name'' = Some (PStr nm)" "str_lower nm = ''no''"
            "map_of oc ''price'' = Some price" "py_float pf price = Inr x" by blast
        from eq have "a # ocs = (a # pre) @ PDict oc # post" by simp
        moreover from pre a qn False
        have "\<forall>q \<in> set (a # pre). \<exists>qd qn. q = PDict qd \<and> map_of qd ''name'' = Some (PStr qn) \<and> str_lower qn \<noteq> ''no''"
          by simp
        ultimately show "?R (a # ocs)" using rest by blast
      qed
      show ?thesis using L R Cons.IH by simp
    qed
  qed
qed

lemma py_iter_non_list:
  "py_iter v = Inr ocs \<Longrightarrow> (\<forall>xs. v \<noteq> PList xs) \<Longrightarrow> scan_outcomes pf ocs \<noteq> Inr (Some x)"
  by (cases v; cases ocs) auto

lemma no_price_body_Some:
  "no_price_body pf m = Inr (Some x) \<longleftrightarrow>
     (\<exists>d ocs. m = PDict d \<and> map_of d ''outcomes'' = Some (PList ocs) \<and>
        scan_outcomes pf ocs = Inr (Some x))"
proof
  assume L: "no_price_body pf m = Inr (Some x)"
  then obtain outcomes ocs where o: "getitem_key m ''outcomes'' = Inr outcomes"
    and it: "py_iter outcomes = Inr ocs" and sc: "scan_outcomes pf ocs = Inr (Some x)"
    by (auto simp: no_price_body_def split: sum.splits)
  from it sc py_iter_non_list obtain xs where "outcomes = PList xs" by blast
  with o it sc show "\<exists>d ocs. m = PDict d \<and> map_of d ''outcomes'' = Some (PList ocs) \<and>
        scan_outcomes pf ocs = Inr (Some x)"
    by (auto simp: getitem_key_Inr)
next
  assume "\<exists>d ocs. m = PDict d \<and> map_of d ''outcomes'' = Some (PList ocs) \<and>
        scan_outcomes pf ocs = Inr (Some x)"
  then show "no_price_body pf m = Inr (Some x)"
    by (auto simp: no_price_body_def)
qed

text \<open>
  C8. On every market value the two price extractors raise nothing. The YES-bid
  extractor returns a price exactly when the market is an object whose
  \<^verbatim>\<open>order_books.yes.bids\<close> is a list with an object in front that has a price
  \<^verbatim>\<open>float\<close> accepts, and the price is that of this first bid; in every other case it
  returns null. The NO-price extractor returns a price exactly when the outcomes are a
  list in which some object is named \<^verbatim>\<open>no\<close> up to case and has a price \<^verbatim>\<open>float\<close>
  accepts, every outcome before it being an object with a string name that is not
  \<^verbatim>\<open>no\<close>, and the price is that of this outcome; in every other case it returns null.
\<close>

theorem price_extractors_never_raise:
  "(\<exists>r. get_kalshi_yes_bid pf m = Inr r) \<and>
   (get_kalshi_yes_bid pf m = Inr (Some x) \<longleftrightarrow>
      (\<exists>d ob yes b bids price.
         m = PDict d \<and> map_of d ''order_books'' = Some (PDict ob) \<and>
         map_of ob ''yes'' = Some (PDict yes) \<and>
         map_of yes ''bids'' = Some (PList (PDict b # bids)) \<and>
         map_of b ''price'' = Some price \<and> py_float pf price = Inr x)) \<and>
   (\<exists>r. get_polymarket_no_price pf m = Inr r) \<and>
   (get_polymarket_no_price pf m = Inr (Some x) \<longleftrightarrow>
      (\<exists>d pre oc post nm price.
         m = PDict d \<and> map_of d ''outcomes'' = Some (PList (pre @ PDict oc # post)) \<and>
         (\<forall>q \<in> set pre. \<exists>qd qn. q = PDict qd \<and> map_of qd ''name'' = Some (PStr qn) \<and>
                                qn \<notin> {''no'', ''No'', ''nO'', ''NO''}) \<and>
         map_of oc ''name'' = Some (PStr nm) \<and> nm \<in> {''no'', ''No'', ''nO'', ''NO''} \<and>
         map_of oc ''price'' = Some price \<and> py_float pf price = Inr x))"
proof (intro conjI)
  show "\<exists>r. get_kalshi_yes_bid pf m = Inr r"
    by (simp add: get_kalshi_yes_bid_eq)
  show "\<exists>r. get_polymarket_no_price pf m = Inr r"
    by (simp add: get_polymarket_no_price_eq)
  have "get_kalshi_yes_bid pf m = Inr (Some x) \<longleftrightarrow> yes_bid_body pf m = Inr x"
    by (simp add: get_kalshi_yes_bid_eq split: sum.splits)
  then show "get_kalshi_yes_bid pf m = Inr (Some x) \<longleftrightarrow>
      (\<exists>d ob yes b bids price.
         m = PDict d \<and> map_of d ''order_books'' = Some (PDict ob) \<and>
         map_of ob ''yes'' = Some (PDict yes) \<and>
         map_of yes ''bids'' = Some (PList (PDict b # bids)) \<and>
         map_of b ''price'' = Some price \<and> py_float pf price = Inr x)"
    by (simp only: yes_bid_body_Inr)
  have "get_polymarket_no_price pf m = Inr (Some x) \<longleftrightarrow> no_price_body pf m = Inr (Some x)"
    by (simp add: get_polymarket_no_price_eq split: sum.splits)
  also have "\<dots> \<longleftrightarrow> (\<exists>d ocs. m = PDict d \<and> map_of d ''outcomes'' = Some (PList ocs) \<and>
        scan_outcomes pf ocs = Inr (Some x))"
    by (rule no_price_body_Some)
  also have "\<dots> \<longleftrightarrow> (\<exists>d pre oc post nm price.
         m = PDict d \<and> map_of d ''outcomes'' = Some (PList (pre @ PDict oc # post)) \<and>
         (\<forall>q \<in> set pre. \<exists>qd qn. q = PDict qd \<and> map_of qd ''name'' = Some (PStr qn) \<and>
                                qn \<notin> {''no'', ''No'', ''nO'', ''NO''}) \<and>
         map_of oc ''name'' = Some (PStr nm) \<and> nm \<in> {''no'', ''No'', ''nO'', ''NO''} \<and>
         map_of oc ''price'' = Some price \<and> py_float pf price = Inr x)"
    unfolding scan_outcomes_Some str_lower_no by blast
  finally show "get_polymarket_no_price pf m = Inr (Some x) \<longleftrightarrow>
      (\<exists>d pre oc post nm price.
         m = PDict d \<and> map_of d ''outcomes'' = Some (PList (pre @ PDict oc # post)) \<and>
         (\<forall>q \<in> set pre. \<exists>qd qn. q = PDict qd \<and> map_of qd ''name'' = Some (PStr qn) \<and>
                                qn \<notin> {''no'', ''No'', ''nO'', ''NO''}) \<and>
         map_of oc ''name'' = Some (PStr nm) \<and> nm \<in> {''no'', ''No'', ''nO'', ''NO''} \<and>
         map_of oc ''price'' = Some price \<and> py_float pf price = Inr x)" .
qed

theorem price_extractors_never_raise_witness:
  "get_polymarket_no_price numbers_only yes_no_market = Inr (Some (11 / 20))"
proof -
  have "yes_no_market = PDict [(''outcomes'',
             PList [PDict [(''name'', PStr ''Yes''), (''price'', PFloat (9 / 20))],
                    PDict [(''name'', PStr ''NO''), (''price'', PFloat (11 / 20))]])] \<and>
        map_of [(''outcomes'',
             PList [PDict [(''name'', PStr ''Yes''), (''price'', PFloat (9 / 20))],
                    PDict [(''name'', PStr ''NO''), (''price'', PFloat (11 / 20))]])] ''outcomes''
          = Some (PList ([PDict [(''name'', PStr ''Yes''), (''price'', PFloat (9 / 20))]] @
                    PDict [(''name'', PStr ''NO''), (''price'', PFloat (11 / 20))] # [])) \<and>
        (\<forall>q \<in> set [PDict [(''name'', PStr ''Yes''), (''price'', PFloat (9 / 20))]].
            \<exists>qd qn. q = PDict qd \<and> map_of qd ''name'' = Some (PStr qn) \<and>
                                qn \<notin> {''no'', ''No'', ''nO'', ''NO''}) \<and>
        map_of [(''name'', PStr ''NO''), (''price'', PFloat (11 / 20))] ''name'' = Some (PStr ''NO'') \<and>
        ''NO'' \<in> {''no'', ''No'', ''nO'', ''NO''} \<and>
        map_of [(''name'', PStr ''NO''), (''price'', PFloat (11 / 20))] ''price'' = Some (PFloat (11 / 20)) \<and>
        py_float numbers_only (PFloat (11 / 20)) = Inr (11 / 20)"
    by (simp add: yes_no_market_def)
  then have "\<exists>d pre oc post nm price.
         yes_no_market = PDict d \<and> map_of d ''outcomes'' = Some (PList (pre @ PDict oc # post)) \<and>
         (\<forall>q \<in> set pre. \<exists>qd qn. q = PDict qd \<and> map_of qd ''name'' = Some (PStr qn) \<and>
                                qn \<notin> {''no'', ''No'', ''nO'', ''NO''}) \<and>
         map_of oc ''name'' = Some (PStr nm) \<and> nm \<in> {''no'', ''No'', ''nO'', ''NO''} \<and>
         map_of oc ''price'' = Some price \<and> py_float numbers_only price = Inr (11 / 20)"
    by blast
  then show ?thesis
    using price_extractors_never_raise [of numbers_only yes_no_market "11 / 20"] by blast
qed

section \<open>Exact matcher\<close>

lemma norm_of_Some:
  "norm_of m = Some n \<longleftrightarrow> (\<exists>t. getitem_key m ''title'' = Inr (PStr t) \<and> n = normalize_str t)"
proof -
  have "normalize_title v = Inr n \<longleftrightarrow> (\<exists>t. v = PStr t \<and> n = normalize_str t)" for v
    by (cases v) auto
  then show ?thesis
    by (auto simp: norm_of_def split: sum.splits)
qed

lemma norm_of_None:
  "norm_of m = None \<longleftrightarrow>
     (\<exists>e. getitem_key m ''title'' = Inl e) \<or>
     (\<exists>t e. getitem_key m ''title'' = Inr t \<and> normalize_title t = Inl e)"
  by (auto simp: norm_of_def split: sum.splits)

lemma last_write_mapping_Nil: "last_write_mapping [] = Map.empty"
  by (rule ext) (simp add: last_write_mapping_def)

lemma last_write_mapping_alt:
  "last_write_mapping A n =
     (if filter (\<lambda>m. norm_of m = Some n) A = [] then None
      else Some (last (filter (\<lambda>m. norm_of m = Some n) A)))"
  by (simp add: last_write_mapping_def split: list.splits)

lemma last_write_mapping_snoc:
  "norm_of m = Some n \<Longrightarrow> last_write_mapping (A @ [m]) = (last_write_mapping A)(n \<mapsto> m)"
  by (rule ext) (simp add: last_write_mapping_alt)

text \<open>The comprehension computes the last-write-wins mapping, given what it has built
  from the markets before.\<close>

lemma build_lookup_spec:
  "\<forall>m \<in> set ms. norm_of m \<noteq> None \<Longrightarrow>
   build_lookup ms (last_write_mapping A) = Inr (last_write_mapping (A @ ms))"
proof (induction ms arbitrary: A)
  case Nil
  show ?case by simp
next
  case (Cons m ms)
  then obtain n where n: "norm_of m = Some n" by auto
  then obtain t where t: "getitem_key m ''title'' = Inr (PStr t)" "n = normalize_str t"
    by (auto simp: norm_of_Some)
  have "build_lookup (m # ms) (last_write_mapping A) = build_lookup ms ((last_write_mapping A)(n \<mapsto> m))"
    by (simp add: t)
  also have "\<dots> = build_lookup ms (last_write_mapping (A @ [m]))"
    by (simp add: last_write_mapping_snoc [OF n])
  also have "\<dots> = Inr (last_write_mapping ((A @ [m]) @ ms))"
    using Cons.prems by (intro Cons.IH) simp
  finally show ?case by simp
qed

lemma build_lookup_error:
  "\<exists>m \<in> set ms. norm_of m = None \<Longrightarrow> \<exists>e. build_lookup ms d = Inl e"
proof (induction ms arbitrary: d)
  case Nil
  then show ?case by simp
next
  case (Cons m ms)
  show ?case
  proof (cases "norm_of m")
    case None
    then show ?thesis by (auto simp: norm_of_None)
  next
    case (Some n)
    then obtain t where t: "getitem_key m ''title'' = Inr (PStr t)" "n = normalize_str t"
      by (auto simp: norm_of_Some)
    from Cons.prems Some have "\<exists>m \<in> set ms. norm_of m = None" by auto
    from Cons.IH [OF this] show ?thesis by (simp add: t)
  qed
qed

lemma match_loop_spec:
  "\<forall>pm \<in> set pms. norm_of pm \<noteq> None \<Longrightarrow>
   match_loop (last_write_mapping A) pms matches = Inr (matches @ exact_match_spec A pms)"
proof (induction pms arbitrary: matches)
  case Nil
  show ?case by (simp add: exact_match_spec_def)
next
  case (Cons pm pms)
  then obtain n where n: "norm_of pm = Some n" by auto
  then obtain t where t: "getitem_key pm ''title'' = Inr (PStr t)" "n = normalize_str t"
    by (auto simp: norm_of_Some)
  have spec: "exact_match_spec A (pm # pms) = exact_pairs_of A pm @ exact_match_spec A pms"
    by (simp add: exact_match_spec_def)
  from Cons.prems have rest: "\<forall>pm \<in> set pms. norm_of pm \<noteq> None" by simp
  show ?case
  proof (cases "last_write_mapping A n")
    case None
    then have "exact_pairs_of A pm = []" by (simp add: exact_pairs_of_def n)
    moreover have "match_loop (last_write_mapping A) (pm # pms) matches =
        match_loop (last_write_mapping A) pms matches"
      using None t by simp
    ultimately show ?thesis by (simp add: spec Cons.IH [OF rest])
  next
    case (Some k)
    then have "exact_pairs_of A pm = [\<lparr>name = PStr t, kalshi = k, polymarket = pm\<rparr>]"
      by (simp add: exact_pairs_of_def n t)
    moreover have "match_loop (last_write_mapping A) (pm # pms) matches =
        match_loop (last_write_mapping A) pms (matches @ [\<lparr>name = PStr t, kalshi = k, polymarket = pm\<rparr>])"
      using Some t by simp
    ultimately show ?thesis by (simp add: spec Cons.IH [OF rest])
  qed
qed

lemma match_loop_error:
  "\<exists>pm \<in> set pms. norm_of pm = None \<Longrightarrow> \<exists>e. match_loop d pms matches = Inl e"
proof (induction pms arbitrary: matches)
  case Nil
  then show ?case by simp
next
  case (Cons pm pms)
  show ?case
  proof (cases "norm_of pm")
    case None
    then show ?thesis by (auto simp: norm_of_None)
  next
    case (Some n)
    then obtain t where t: "getitem_key pm ''title'' = Inr (PStr t)" "n = normalize_str t"
      by (auto simp: norm_of_Some)
    from Cons.prems Some have "\<exists>pm \<in> set pms. norm_of pm = None" by auto
    from Cons.IH [OF this] show ?thesis by (simp add: t split: option.splits)
  qed
qed

lemma match_markets_spec:
  assumes "\<forall>m \<in> set A \<union> set B. norm_of m \<noteq> None"
  shows "match_markets A B = Inr (exact_match_spec A B)"
proof -
  have "build_lookup A (last_write_mapping []) = Inr (last_write_mapping ([] @ A))"
    using assms by (intro build_lookup_spec) simp
  then have "build_lookup A Map.empty = Inr (last_write_mapping A)"
    by (simp add: last_write_mapping_Nil)
  moreover have "match_loop (last_write_mapping A) B [] = Inr ([] @ exact_match_spec A B)"
    using assms by (intro match_loop_spec) simp
  ultimately show ?thesis by (simp add: match_markets_def)
qed

lemma match_markets_error:
  assumes "\<exists>m \<in> set A \<union> set B. norm_of m = None"
  shows "\<exists>e. match_markets A B = Inl e"
proof (cases "\<exists>m \<in> set A. norm_of m = None")
  case True
  from build_lookup_error [OF this, of Map.empty] show ?thesis
    by (auto simp: match_markets_def)
next
  case False
  with assms have "\<exists>pm \<in> set B. norm_of pm = None" by auto
  from match_loop_error [OF this] show ?thesis
    by (auto simp: match_markets_def split: sum.splits)
qed

lemma match_markets_Inr:
  "match_markets A B = Inr ms \<Longrightarrow> ms = exact_match_spec A B \<and> (\<forall>m \<in> set A \<union> set B. norm_of m \<noteq> None)"
proof -
  assume ms: "match_markets A B = Inr ms"
  have wf: "\<forall>m \<in> set A \<union> set B. norm_of m \<noteq> None"
  proof (rule ccontr)
    assume "\<not> (\<forall>m \<in> set A \<union> set B. norm_of m \<noteq> None)"
    then have "\<exists>m \<in> set A \<union> set B. norm_of m = None" by auto
    from match_markets_error [OF this] ms show False by auto
  qed
  with ms match_markets_spec [OF wf] show ?thesis by simp
qed

lemma last_write_mapping_norm: "last_write_mapping A n = Some k \<Longrightarrow> k \<in> set A \<and> norm_of k = Some n"
proof -
  assume a: "last_write_mapping A n = Some k"
  then have ne: "filter (\<lambda>m. norm_of m = Some n) A \<noteq> []"
    and k: "k = last (filter (\<lambda>m. norm_of m = Some n) A)"
    by (auto simp: last_write_mapping_alt split: if_splits)
  have "k \<in> set (filter (\<lambda>m. norm_of m = Some n) A)"
    unfolding k using ne by (rule last_in_set)
  then show ?thesis by simp
qed

lemma exact_pairs_of_titles:
  "pr \<in> set (exact_pairs_of A pm) \<Longrightarrow>
     polymarket pr = pm \<and> kalshi pr \<in> set A \<and> norm_of (kalshi pr) = norm_of pm \<and> norm_of pm \<noteq> None"
proof -
  assume pr: "pr \<in> set (exact_pairs_of A pm)"
  show ?thesis
  proof (cases "norm_of pm")
    case None
    with pr show ?thesis by (simp add: exact_pairs_of_def)
  next
    case n: (Some n)
    show ?thesis
    proof (cases "last_write_mapping A n")
      case None
      with pr n show ?thesis by (simp add: exact_pairs_of_def)
    next
      case k: (Some k)
      with pr n have "polymarket pr = pm" "kalshi pr = k"
        by (simp_all add: exact_pairs_of_def)
      with last_write_mapping_norm [OF k] n show ?thesis by simp
    qed
  qed
qed

lemma length_exact_pairs_of: "length (exact_pairs_of A pm) \<le> 1"
  by (simp add: exact_pairs_of_def split: option.splits)

lemma length_exact_match_spec: "length (exact_match_spec A B) \<le> length B"
proof (induction B)
  case Nil
  show ?case by (simp add: exact_match_spec_def)
next
  case (Cons pm B)
  have "exact_match_spec A (pm # B) = exact_pairs_of A pm @ exact_match_spec A B"
    by (simp add: exact_match_spec_def)
  then show ?case using Cons length_exact_pairs_of [of A pm] by simp
qed

lemma length_exact_match_spec_filter:
  "length (exact_match_spec A B) = length (filter (\<lambda>pm. exact_pairs_of A pm \<noteq> []) B)"
proof (induction B)
  case Nil
  show ?case by (simp add: exact_match_spec_def)
next
  case (Cons pm B)
  have spec: "exact_match_spec A (pm # B) = exact_pairs_of A pm @ exact_match_spec A B"
    by (simp add: exact_match_spec_def)
  have "exact_pairs_of A pm \<noteq> [] \<Longrightarrow> length (exact_pairs_of A pm) = 1"
    using length_exact_pairs_of [of A pm] by (cases "exact_pairs_of A pm") auto
  then show ?case using Cons by (simp add: spec)
qed

lemma exact_pairs_of_nonempty:
  "exact_pairs_of A pm \<noteq> [] \<Longrightarrow> norm_of pm \<in> norm_of ` set A"
proof -
  assume "exact_pairs_of A pm \<noteq> []"
  then obtain pr where "pr \<in> set (exact_pairs_of A pm)" by (cases "exact_pairs_of A pm") auto
  from exact_pairs_of_titles [OF this] show ?thesis by (metis imageI)
qed

lemma length_exact_match_spec_distinct:
  assumes "distinct (map norm_of B)"
  shows "length (exact_match_spec A B) \<le> length A"
proof -
  define M where "M = filter (\<lambda>pm. exact_pairs_of A pm \<noteq> []) B"
  have d: "distinct (map norm_of M)"
    unfolding M_def using assms by (rule distinct_map_filter)
  have sub: "set (map norm_of M) \<subseteq> norm_of ` set A"
    unfolding M_def by (auto dest: exact_pairs_of_nonempty)
  have "length (exact_match_spec A B) = length (map norm_of M)"
    by (simp add: length_exact_match_spec_filter M_def)
  also have "\<dots> = card (set (map norm_of M))"
    using d by (simp only: distinct_card)
  also have "\<dots> \<le> card (norm_of ` set A)"
    using sub by (intro card_mono) simp_all
  also have "\<dots> \<le> card (set A)" by (intro card_image_le) simp
  also have "\<dots> \<le> length A" by (rule card_length)
  finally show ?thesis .
qed

lemma normalize_rain:
  "normalize_str ''Rain?'' = ''rain''" "normalize_str ''rain'' = ''rain''"
  "normalize_str ''RAIN'' = ''rain''" "normalize_str ''Rain, ?'' = ''rain''"
  by code_simp+

lemma norm_of_rain:
  "norm_of ka1 = Some ''rain''" "norm_of ka2 = Some ''rain''"
  "norm_of pb1 = Some ''rain''" "norm_of pb2 = Some ''rain''"
  by (simp_all add: norm_of_def ka1_def ka2_def pb1_def pb2_def normalize_rain)

lemma markets_rain_distinct: "ka1 \<noteq> ka2" "ka1 \<noteq> pb1" "ka1 \<noteq> pb2" "ka2 \<noteq> pb1" "pb1 \<noteq> pb2"
  by (simp_all add: ka1_def ka2_def pb1_def pb2_def)

text \<open>
  C4. When every market of both lists has a string title, the comprehension of the
  exact matcher builds the mapping from normalized title to source-A market in which
  the last market of a title wins, and the matcher returns, for the source-B markets in
  order, one pair for each market whose normalized title is in that mapping and none
  for the others; the two markets of every returned pair have the same normalized
  title. The matcher is a function of its two arguments.
\<close>

theorem exact_matcher_last_write_wins:
  assumes "\<forall>m \<in> set A \<union> set B. norm_of m \<noteq> None"
  shows "build_lookup A Map.empty = Inr (last_write_mapping A) \<and>
         match_markets A B = Inr (exact_match_spec A B) \<and>
         (\<forall>pr \<in> set (exact_match_spec A B).
             norm_of (kalshi pr) = norm_of (polymarket pr) \<and> norm_of (kalshi pr) \<noteq> None)"
proof (intro conjI)
  have "build_lookup A (last_write_mapping []) = Inr (last_write_mapping ([] @ A))"
    using assms by (intro build_lookup_spec) simp
  then show "build_lookup A Map.empty = Inr (last_write_mapping A)"
    by (simp add: last_write_mapping_Nil)
  show "match_markets A B = Inr (exact_match_spec A B)"
    using assms by (rule match_markets_spec)
  show "\<forall>pr \<in> set (exact_match_spec A B).
             norm_of (kalshi pr) = norm_of (polymarket pr) \<and> norm_of (kalshi pr) \<noteq> None"
  proof
    fix pr
    assume "pr \<in> set (exact_match_spec A B)"
    then obtain pm where "pr \<in> set (exact_pairs_of A pm)"
      by (auto simp: exact_match_spec_def)
    from exact_pairs_of_titles [OF this]
    show "norm_of (kalshi pr) = norm_of (polymarket pr) \<and> norm_of (kalshi pr) \<noteq> None"
      by simp
  qed
qed

theorem exact_matcher_last_write_wins_witness:
  "match_markets [ka1, ka2] [pb1] = Inr [\<lparr>name = PStr ''RAIN'', kalshi = ka2, polymarket = pb1\<rparr>] \<and>
   norm_of ka2 = norm_of pb1"
proof -
  have wf: "\<forall>m \<in> set [ka1, ka2] \<union> set [pb1]. norm_of m \<noteq> None"
    by (simp add: norm_of_rain)
  have "exact_match_spec [ka1, ka2] [pb1] = [\<lparr>name = PStr ''RAIN'', kalshi = ka2, polymarket = pb1\<rparr>]"
    by (simp add: exact_match_spec_def exact_pairs_of_def last_write_mapping_def norm_of_rain)
      (simp add: pb1_def)
  with exact_matcher_last_write_wins [OF wf] show ?thesis
    by (simp add: norm_of_rain)
qed

text \<open>
  C2, as the specification states it, fails: one source-A market and two source-B
  markets, all different, whose three titles normalize to the same string, give two
  pairs, and the smaller list has one market.
\<close>

theorem exact_matcher_two_pairs_counterexample:
  "match_markets [ka1] [pb1, pb2] =
     Inr [\<lparr>name = PStr ''RAIN'', kalshi = ka1, polymarket = pb1\<rparr>,
          \<lparr>name = PStr ''Rain, ?'', kalshi = ka1, polymarket = pb2\<rparr>] \<and>
   set [ka1] \<inter> set [pb1, pb2] = {} \<and>
   \<not> length [\<lparr>name = PStr ''RAIN'', kalshi = ka1, polymarket = pb1\<rparr>,
             \<lparr>name = PStr ''Rain, ?'', kalshi = ka1, polymarket = pb2\<rparr>]
       \<le> min (length [ka1]) (length [pb1, pb2])"
proof -
  have wf: "\<forall>m \<in> set [ka1] \<union> set [pb1, pb2]. norm_of m \<noteq> None"
    by (simp add: norm_of_rain)
  have "exact_match_spec [ka1] [pb1, pb2] =
     [\<lparr>name = PStr ''RAIN'', kalshi = ka1, polymarket = pb1\<rparr>,
      \<lparr>name = PStr ''Rain, ?'', kalshi = ka1, polymarket = pb2\<rparr>]"
    by (simp add: exact_match_spec_def exact_pairs_of_def last_write_mapping_def norm_of_rain)
      (simp add: pb1_def pb2_def)
  with match_markets_spec [OF wf] show ?thesis
    by (simp add: markets_rain_distinct)
qed

text \<open>
  C2, amended. Whenever the exact matcher returns, the number of pairs is at most the
  number of source-B markets; it is at most the size of the smaller list when the
  normalized titles of the source-B markets are pairwise distinct.
\<close>

theorem exact_matcher_size:
  assumes "match_markets A B = Inr ms"
  shows "length ms \<le> length B \<and>
         (distinct (map norm_of B) \<longrightarrow> length ms \<le> min (length A) (length B))"
proof -
  from match_markets_Inr [OF assms] have ms: "ms = exact_match_spec A B" by simp
  show ?thesis
    unfolding ms using length_exact_match_spec [of A B] length_exact_match_spec_distinct [of B A]
    by simp
qed

theorem exact_matcher_size_witness:
  "match_markets [ka1, ka2] [pb1] = Inr [\<lparr>name = PStr ''RAIN'', kalshi = ka2, polymarket = pb1\<rparr>] \<and>
   distinct (map norm_of [pb1]) \<and>
   length [\<lparr>name = PStr ''RAIN'', kalshi = ka2, polymarket = pb1\<rparr>] \<le> min (length [ka1, ka2]) (length [pb1])"
proof -
  have wf: "\<forall>m \<in> set [ka1, ka2] \<union> set [pb1]. norm_of m \<noteq> None"
    by (simp add: norm_of_rain)
  have "exact_match_spec [ka1, ka2] [pb1] = [\<lparr>name = PStr ''RAIN'', kalshi = ka2, polymarket = pb1\<rparr>]"
    by (simp add: exact_match_spec_def exact_pairs_of_def last_write_mapping_def norm_of_rain)
      (simp add: pb1_def)
  with match_markets_spec [OF wf]
  have m: "match_markets [ka1, ka2] [pb1] = Inr [\<lparr>name = PStr ''RAIN'', kalshi = ka2, polymarket = pb1\<rparr>]"
    by simp
  from exact_matcher_size [OF m] show ?thesis using m by simp
qed

text \<open>
  C3. The claim that nothing in matching and evaluation raises is not met by the
  code: a source-B market that carries its title under \<^verbatim>\<open>question\<close> only makes the
  exact matcher raise KeyError, where the title extraction of the embedding strategy
  returns the title; a source-A market without \<^verbatim>\<open>title\<close> makes the embedding
  matcher raise KeyError as well.
\<close>

theorem matchers_raise_on_missing_title:
  "match_markets [] [rain_question] = Inl KeyError \<and>
   extract_polymarket_title rain_question = Inr (PStr ''Will it rain tomorrow?'') \<and>
   match_markets_ai unit_emb unit_cosine [rain_question] [] = Inl KeyError"
  by (simp add: match_markets_def match_markets_ai_def extract_polymarket_title_def rain_question_def)

section \<open>Embedding matcher\<close>

lemma get_embedding_eq: "get_embedding emb text = Inr (embedding_vector emb text)"
  by (simp add: get_embedding_def embedding_vector_def try_except_def split: option.splits sum.splits)

lemma ai_inner_Inr:
  assumes k: "getitem_key k ''title'' = Inr kt"
  shows "ai_inner emb cs k kt (embedding_vector emb kt) ps ms = Inr res \<Longrightarrow>
         res = ms @ concat (map (ai_pairs_of emb cs k) ps)"
proof (induction ps arbitrary: ms)
  case Nil
  then show ?case by simp
next
  case (Cons p ps)
  from Cons.prems obtain pt where pt: "extract_polymarket_title p = Inr pt"
    by (auto split: sum.splits)
  from Cons.prems pt obtain x y where sl: "py_slice_prefix 30 kt = Inr x" "py_slice_prefix 30 pt = Inr y"
    by (auto simp: get_embedding_eq Let_def split: sum.splits)
  define sim where "sim = cs (embedding_vector emb kt) (embedding_vector emb pt)"
  show ?case
  proof (cases "9 / 10 < sim")
    case True
    then have pairs: "ai_pairs_of emb cs k p =
        [\<lparr>name = kt, kalshi = k, polymarket = p, similarity = py_round sim 3\<rparr>]"
      by (simp add: ai_pairs_of_def k pt sim_def)
    from Cons.prems True
    have "ai_inner emb cs k kt (embedding_vector emb kt) ps
            (ms @ [\<lparr>name = kt, kalshi = k, polymarket = p, similarity = py_round sim 3\<rparr>]) = Inr res"
      by (simp add: pt sl get_embedding_eq sim_def)
    from Cons.IH [OF this] show ?thesis by (simp add: pairs)
  next
    case False
    then have pairs: "ai_pairs_of emb cs k p = []"
      by (simp add: ai_pairs_of_def k pt sim_def)
    from Cons.prems False
    have "ai_inner emb cs k kt (embedding_vector emb kt) ps ms = Inr res"
      by (simp add: pt sl get_embedding_eq sim_def)
    from Cons.IH [OF this] show ?thesis by (simp add: pairs)
  qed
qed

lemma ai_match_spec_Cons:
  "ai_match_spec emb cs (k # ks) ps = concat (map (ai_pairs_of emb cs k) ps) @ ai_match_spec emb cs ks ps"
  by (simp add: ai_match_spec_def)

lemma ai_outer_Inr:
  "ai_outer emb cs ks ps ms = Inr res \<Longrightarrow> res = ms @ ai_match_spec emb cs ks ps"
proof (induction ks arbitrary: ms)
  case Nil
  then show ?case by (simp add: ai_match_spec_def)
next
  case (Cons k ks)
  from Cons.prems obtain kt where kt: "getitem_key k ''title'' = Inr kt"
    by (auto split: sum.splits)
  from Cons.prems kt obtain ms' where
    inner: "ai_inner emb cs k kt (embedding_vector emb kt) ps ms = Inr ms'" and
    outer: "ai_outer emb cs ks ps ms' = Inr res"
    by (auto simp: get_embedding_eq split: sum.splits)
  from ai_inner_Inr [OF kt inner] Cons.IH [OF outer] show ?case
    by (simp add: ai_match_spec_Cons)
qed

lemma ai_inner_ok:
  assumes "\<exists>x. py_slice_prefix 30 kt = Inr x"
    and "\<forall>p \<in> set ps. \<exists>pt x. extract_polymarket_title p = Inr pt \<and> py_slice_prefix 30 pt = Inr x"
  shows "\<exists>res. ai_inner emb cs k kt ke ps ms = Inr res"
  using assms(2)
proof (induction ps arbitrary: ms)
  case Nil
  show ?case by simp
next
  case (Cons p ps)
  from Cons.prems obtain pt y where pt: "extract_polymarket_title p = Inr pt" "py_slice_prefix 30 pt = Inr y"
    by auto
  from assms(1) obtain x where x: "py_slice_prefix 30 kt = Inr x" ..
  from Cons.prems have rest: "\<forall>p \<in> set ps. \<exists>pt x. extract_polymarket_title p = Inr pt \<and> py_slice_prefix 30 pt = Inr x"
    by simp
  show ?case
    using Cons.IH [OF rest] by (simp add: pt x get_embedding_eq Let_def)
qed

lemma ai_outer_ok:
  assumes "\<forall>k \<in> set ks. \<exists>kt x. getitem_key k ''title'' = Inr kt \<and> py_slice_prefix 30 kt = Inr x"
    and ps: "\<forall>p \<in> set ps. \<exists>pt x. extract_polymarket_title p = Inr pt \<and> py_slice_prefix 30 pt = Inr x"
  shows "\<exists>res. ai_outer emb cs ks ps ms = Inr res"
  using assms(1)
proof (induction ks arbitrary: ms)
  case Nil
  show ?case by simp
next
  case (Cons k ks)
  from Cons.prems obtain kt x where kt: "getitem_key k ''title'' = Inr kt" "py_slice_prefix 30 kt = Inr x"
    by auto
  from kt(2) have "\<exists>x. py_slice_prefix 30 kt = Inr x" ..
  from ai_inner_ok [OF this ps] obtain ms' where
    inner: "ai_inner emb cs k kt (embedding_vector emb kt) ps ms = Inr ms'" by blast
  from Cons.prems have rest: "\<forall>k \<in> set ks. \<exists>kt x. getitem_key k ''title'' = Inr kt \<and> py_slice_prefix 30 kt = Inr x"
    by simp
  show ?case
    using Cons.IH [OF rest, of ms'] by (simp add: kt get_embedding_eq inner)
qed

lemma match_markets_ai_wellformed:
  assumes "\<forall>k \<in> set A. \<exists>kt x. getitem_key k ''title'' = Inr kt \<and> py_slice_prefix 30 kt = Inr x"
    and "\<forall>p \<in> set B. \<exists>pt x. extract_polymarket_title p = Inr pt \<and> py_slice_prefix 30 pt = Inr x"
  shows "match_markets_ai emb cs A B = Inr (ai_match_spec emb cs A B)"
proof -
  from ai_outer_ok [OF assms] obtain res where res: "ai_outer emb cs A B [] = Inr res" by blast
  from ai_outer_Inr [OF res] res show ?thesis by (simp add: match_markets_ai_def)
qed

lemma round_half_even_ge_floor: "\<lfloor>x\<rfloor> \<le> round_half_even x"
  by (simp add: round_half_even_def Let_def)

lemma py_round_above_threshold:
  assumes "9 / 10 < x"
  shows "9 / 10 \<le> py_round x 3"
proof -
  have "(900 :: rat) \<le> x * 1000" using assms by simp
  then have "(900 :: int) \<le> \<lfloor>x * 1000\<rfloor>" by (simp add: le_floor_iff)
  with round_half_even_ge_floor [of "x * 1000"] have "900 \<le> round_half_even (x * 1000)"
    by linarith
  then have "(900 :: rat) \<le> of_int (round_half_even (x * 1000))"
    by (metis of_int_le_iff of_int_numeral)
  then show ?thesis by (simp add: py_round_def)
qed

lemma ai_pairs_of_member:
  "pr \<in> set (ai_pairs_of emb cs k p) \<Longrightarrow>
     \<exists>kt pt. kalshi pr = k \<and> polymarket pr = p \<and> name pr = kt \<and>
        getitem_key k ''title'' = Inr kt \<and> extract_polymarket_title p = Inr pt \<and>
        9 / 10 < cs (embedding_vector emb kt) (embedding_vector emb pt) \<and>
        similarity pr = py_round (cs (embedding_vector emb kt) (embedding_vector emb pt)) 3"
proof -
  assume pr: "pr \<in> set (ai_pairs_of emb cs k p)"
  show ?thesis
  proof (cases "getitem_key k ''title''")
    case (Inl e)
    with pr show ?thesis by (simp add: ai_pairs_of_def)
  next
    case kt: (Inr kt)
    show ?thesis
    proof (cases "extract_polymarket_title p")
      case (Inl e)
      with pr kt show ?thesis by (simp add: ai_pairs_of_def)
    next
      case pt: (Inr pt)
      from pr have "9 / 10 < cs (embedding_vector emb kt) (embedding_vector emb pt) \<and>
          pr = \<lparr>name = kt, kalshi = k, polymarket = p,
                 similarity = py_round (cs (embedding_vector emb kt) (embedding_vector emb pt)) 3\<rparr>"
        by (simp add: ai_pairs_of_def kt pt Let_def split: if_splits)
      then show ?thesis using kt pt by simp
    qed
  qed
qed

lemma ai_match_spec_member:
  "pr \<in> set (ai_match_spec emb cs A B) \<Longrightarrow> \<exists>k \<in> set A. \<exists>p \<in> set B. pr \<in> set (ai_pairs_of emb cs k p)"
  by (auto simp: ai_match_spec_def)

lemma unit_vectors:
  "embedding_vector unit_emb (PStr ''a'') = [1, 0]"
  "embedding_vector unit_emb (PStr ''b'') = [2183 / 2425, 1056 / 2425]"
  "embedding_vector unit_emb (PStr ''c'') = [0, 1]"
  by (simp_all add: embedding_vector_def unit_emb_def)

lemma py_round_unit: "py_round (2183 / 2425) 3 = 9 / 10"
proof -
  have f: "\<lfloor>(2183 / 2425 * 10 ^ 3 :: rat)\<rfloor> = 900"
    by (rule floor_unique) simp_all
  show ?thesis
    by (simp only: py_round_def round_half_even_def Let_def f) simp
qed

lemma match_a_b:
  "match_markets_ai unit_emb unit_cosine [mkt_a] [mkt_b] =
     Inr [\<lparr>name = PStr ''a'', kalshi = mkt_a, polymarket = mkt_b, similarity = 9 / 10\<rparr>]"
  by (simp add: match_markets_ai_def mkt_a_def mkt_b_def extract_polymarket_title_def
      get_embedding_eq unit_vectors unit_cosine_def py_round_unit)

lemma match_a_c: "match_markets_ai unit_emb unit_cosine [mkt_a] [mkt_c] = Inr []"
  by (simp add: match_markets_ai_def mkt_a_def mkt_c_def extract_polymarket_title_def
      get_embedding_eq unit_vectors unit_cosine_def)

text \<open>
  C5, as the specification states it, fails in its first half: a pair is emitted for
  the cosine \<open>2183 / 2425\<close>, which exceeds the threshold, and the similarity it
  carries is that cosine rounded to three decimals, \<open>0.9\<close>, which does not.
\<close>

theorem embedding_matcher_rounded_counterexample:
  "match_markets_ai unit_emb unit_cosine [mkt_a] [mkt_b] =
     Inr [\<lparr>name = PStr ''a'', kalshi = mkt_a, polymarket = mkt_b, similarity = 9 / 10\<rparr>] \<and>
   \<not> 9 / 10 < similarity \<lparr>name = PStr ''a'', kalshi = mkt_a, polymarket = mkt_b, similarity = 9 / 10\<rparr>"
  by (simp add: match_a_b)

text \<open>
  C5, amended. Whenever the embedding matcher returns, its pairs are those of the
  cross product, in order, whose cosine similarity is strictly greater than 0.90; every
  emitted pair carries that similarity rounded to three decimals, which is at least
  0.90; and no pair is emitted when every cross-pair cosine similarity is at most 0.90.
\<close>

theorem embedding_matcher_threshold:
  assumes "match_markets_ai emb cs A B = Inr ms"
  shows "ms = ai_match_spec emb cs A B \<and>
         (\<forall>pr \<in> set ms. \<exists>kt pt.
             kalshi pr \<in> set A \<and> polymarket pr \<in> set B \<and>
             getitem_key (kalshi pr) ''title'' = Inr kt \<and>
             extract_polymarket_title (polymarket pr) = Inr pt \<and>
             9 / 10 < cs (embedding_vector emb kt) (embedding_vector emb pt) \<and>
             similarity pr = py_round (cs (embedding_vector emb kt) (embedding_vector emb pt)) 3 \<and>
             9 / 10 \<le> similarity pr) \<and>
         ((\<forall>k \<in> set A. \<forall>p \<in> set B. \<forall>kt pt.
              getitem_key k ''title'' = Inr kt \<longrightarrow> extract_polymarket_title p = Inr pt \<longrightarrow>
              cs (embedding_vector emb kt) (embedding_vector emb pt) \<le> 9 / 10) \<longrightarrow> ms = [])"
proof -
  from assms have "ai_outer emb cs A B [] = Inr ms" by (simp add: match_markets_ai_def)
  from ai_outer_Inr [OF this] have ms: "ms = ai_match_spec emb cs A B" by simp
  have members: "\<exists>kt pt.
             kalshi pr \<in> set A \<and> polymarket pr \<in> set B \<and>
             getitem_key (kalshi pr) ''title'' = Inr kt \<and>
             extract_polymarket_title (polymarket pr) = Inr pt \<and>
             9 / 10 < cs (embedding_vector emb kt) (embedding_vector emb pt) \<and>
             similarity pr = py_round (cs (embedding_vector emb kt) (embedding_vector emb pt)) 3 \<and>
             9 / 10 \<le> similarity pr" if "pr \<in> set ms" for pr
  proof -
    from that ms ai_match_spec_member obtain k p where
      kp: "k \<in> set A" "p \<in> set B" "pr \<in> set (ai_pairs_of emb cs k p)" by blast
    from ai_pairs_of_member [OF kp(3)] obtain kt pt where
      f: "kalshi pr = k" "polymarket pr = p" "getitem_key k ''title'' = Inr kt"
         "extract_polymarket_title p = Inr pt"
         "9 / 10 < cs (embedding_vector emb kt) (embedding_vector emb pt)"
         "similarity pr = py_round (cs (embedding_vector emb kt) (embedding_vector emb pt)) 3"
      by blast
    from py_round_above_threshold [OF f(5)] f kp(1,2) show ?thesis by auto
  qed
  have none: "ms = []"
    if le: "\<forall>k \<in> set A. \<forall>p \<in> set B. \<forall>kt pt.
              getitem_key k ''title'' = Inr kt \<longrightarrow> extract_polymarket_title p = Inr pt \<longrightarrow>
              cs (embedding_vector emb kt) (embedding_vector emb pt) \<le> 9 / 10"
  proof (rule ccontr)
    assume "ms \<noteq> []"
    then obtain pr where "pr \<in> set ms" by (cases ms) auto
    from members [OF this] obtain kt pt where
      "kalshi pr \<in> set A" "polymarket pr \<in> set B"
      "getitem_key (kalshi pr) ''title'' = Inr kt"
      "extract_polymarket_title (polymarket pr) = Inr pt"
      "9 / 10 < cs (embedding_vector emb kt) (embedding_vector emb pt)" by blast
    with le show False by fastforce
  qed
  from ms members none show ?thesis by blast
qed

theorem embedding_matcher_threshold_witness:
  "match_markets_ai unit_emb unit_cosine [mkt_a] [mkt_b] =
     Inr [\<lparr>name = PStr ''a'', kalshi = mkt_a, polymarket = mkt_b, similarity = 9 / 10\<rparr>] \<and>
   9 / 10 < unit_cosine (embedding_vector unit_emb (PStr ''a'')) (embedding_vector unit_emb (PStr ''b'')) \<and>
   unit_cosine (embedding_vector unit_emb (PStr ''a'')) (embedding_vector unit_emb (PStr ''c'')) \<le> 9 / 10 \<and>
   match_markets_ai unit_emb unit_cosine [mkt_a] [mkt_c] = Inr [] \<and>
   ai_match_spec unit_emb unit_cosine [mkt_a] [mkt_c] = []"
proof -
  have sims:
    "9 / 10 < unit_cosine (embedding_vector unit_emb (PStr ''a'')) (embedding_vector unit_emb (PStr ''b''))"
    "unit_cosine (embedding_vector unit_emb (PStr ''a'')) (embedding_vector unit_emb (PStr ''c'')) \<le> 9 / 10"
    by (simp_all add: unit_vectors unit_cosine_def)
  from embedding_matcher_threshold [OF match_a_c]
  have "[] = ai_match_spec unit_emb unit_cosine [mkt_a] [mkt_c]" by simp
  with sims show ?thesis by (simp add: match_a_b match_a_c)
qed

lemma extract_first_truthy:
  "extract_polymarket_title (PDict d) = Inr (first_truthy_or_unknown d)"
  by (simp add: extract_polymarket_title_def first_truthy_or_unknown_def title_fields_def)

lemma extract_unknown:
  assumes "\<forall>v \<in> set (title_fields d). \<not> truthy v"
  shows "extract_polymarket_title (PDict d) = Inr (PStr ''unknown'')"
proof -
  from assms have "filter truthy (title_fields d) = []" by (simp add: filter_empty_conv)
  then show ?thesis by (simp add: extract_first_truthy first_truthy_or_unknown_def)
qed

lemma ai_pairs_of_unknown:
  assumes "extract_polymarket_title p = Inr (PStr ''unknown'')"
  shows "ai_pairs_of emb cs k p =
           (case getitem_key k ''title'' of
              Inl e \<Rightarrow> []
            | Inr kt \<Rightarrow>
                if 9 / 10 < cs (embedding_vector emb kt) (embedding_vector emb (PStr ''unknown''))
                then [\<lparr>name = kt, kalshi = k, polymarket = p,
                       similarity = py_round (cs (embedding_vector emb kt)
                                                 (embedding_vector emb (PStr ''unknown''))) 3\<rparr>]
                else [])"
  by (cases "getitem_key k ''title''") (simp_all add: ai_pairs_of_def assms Let_def)

text \<open>
  C10. On every source-B market that is an object, the title extraction of the
  embedding strategy returns the first truthy value among the fields \<^verbatim>\<open>question\<close>,
  \<^verbatim>\<open>title\<close> and \<^verbatim>\<open>slug\<close>, and the literal \<^verbatim>\<open>unknown\<close> when none of the three is
  truthy. Hence, when the source-A markets have string titles and no source-B market
  has a truthy title field, the embedding matcher returns and pairs a source-A market
  with every source-B market or with none of them, according to the similarity of its
  title to the text \<^verbatim>\<open>unknown\<close> alone.
\<close>

theorem polymarket_title_falls_back_to_unknown:
  "extract_polymarket_title (PDict d) = Inr (first_truthy_or_unknown d) \<and>
   ((\<forall>v \<in> set (title_fields d). \<not> truthy v) \<longrightarrow>
      extract_polymarket_title (PDict d) = Inr (PStr ''unknown'')) \<and>
   ((\<forall>k \<in> set A. \<exists>t. getitem_key k ''title'' = Inr (PStr t)) \<and>
    (\<forall>p \<in> set B. \<exists>d. p = PDict d \<and> (\<forall>v \<in> set (title_fields d). \<not> truthy v)) \<longrightarrow>
      match_markets_ai emb cs A B =
        Inr (concat (map (\<lambda>k. concat (map (\<lambda>p.
               (case getitem_key k ''title'' of
                  Inl e \<Rightarrow> []
                | Inr kt \<Rightarrow>
                    if 9 / 10 < cs (embedding_vector emb kt) (embedding_vector emb (PStr ''unknown''))
                    then [\<lparr>name = kt, kalshi = k, polymarket = p,
                           similarity = py_round (cs (embedding_vector emb kt)
                                                     (embedding_vector emb (PStr ''unknown''))) 3\<rparr>]
                    else [])) B)) A)))"
proof -
  have matcher: "match_markets_ai emb cs A B =
        Inr (concat (map (\<lambda>k. concat (map (\<lambda>p.
               (case getitem_key k ''title'' of
                  Inl e \<Rightarrow> []
                | Inr kt \<Rightarrow>
                    if 9 / 10 < cs (embedding_vector emb kt) (embedding_vector emb (PStr ''unknown''))
                    then [\<lparr>name = kt, kalshi = k, polymarket = p,
                           similarity = py_round (cs (embedding_vector emb kt)
                                                     (embedding_vector emb (PStr ''unknown''))) 3\<rparr>]
                    else [])) B)) A))"
    if wfA: "\<forall>k \<in> set A. \<exists>t. getitem_key k ''title'' = Inr (PStr t)"
    and wfB: "\<forall>p \<in> set B. \<exists>d. p = PDict d \<and> (\<forall>v \<in> set (title_fields d). \<not> truthy v)"
  proof -
    have B: "extract_polymarket_title p = Inr (PStr ''unknown'')" if "p \<in> set B" for p
    proof -
      from wfB that obtain d where "p = PDict d" "\<forall>v \<in> set (title_fields d). \<not> truthy v"
        by blast
      then show ?thesis by (simp add: extract_unknown)
    qed
    have okA: "\<exists>kt x. getitem_key k ''title'' = Inr kt \<and> py_slice_prefix 30 kt = Inr x"
      if "k \<in> set A" for k
    proof -
      from wfA that obtain t where "getitem_key k ''title'' = Inr (PStr t)" by blast
      then show ?thesis by simp
    qed
    have okB: "\<exists>pt x. extract_polymarket_title p = Inr pt \<and> py_slice_prefix 30 pt = Inr x"
      if "p \<in> set B" for p
      using B [OF that] by simp
    have "match_markets_ai emb cs A B = Inr (ai_match_spec emb cs A B)"
      using okA okB by (intro match_markets_ai_wellformed ballI)
    moreover have "map (ai_pairs_of emb cs k) B = map (\<lambda>p.
               (case getitem_key k ''title'' of
                  Inl e \<Rightarrow> []
                | Inr kt \<Rightarrow>
                    if 9 / 10 < cs (embedding_vector emb kt) (embedding_vector emb (PStr ''unknown''))
                    then [\<lparr>name = kt, kalshi = k, polymarket = p,
                           similarity = py_round (cs (embedding_vector emb kt)
                                                     (embedding_vector emb (PStr ''unknown''))) 3\<rparr>]
                    else [])) B" for k
      by (rule map_cong [OF refl]) (rule ai_pairs_of_unknown, rule B)
    ultimately show ?thesis by (simp only: ai_match_spec_def)
  qed
  show ?thesis
    using extract_first_truthy [of d] extract_unknown [of d] matcher by blast
qed

theorem polymarket_title_falls_back_to_unknown_witness:
  "extract_polymarket_title mkt_untitled = Inr (PStr ''unknown'') \<and>
   match_markets_ai unit_emb unit_cosine [mkt_c] [mkt_untitled, PDict []] =
     Inr [\<lparr>name = PStr ''c'', kalshi = mkt_c, polymarket = mkt_untitled, similarity = 1\<rparr>,
          \<lparr>name = PStr ''c'', kalshi = mkt_c, polymarket = PDict [], similarity = 1\<rparr>]"
proof -
  have d: "\<forall>v \<in> set (title_fields [(''title'', PStr ''''), (''slug'', PNone)]). \<not> truthy v"
    by (simp add: title_fields_def)
  have A: "\<forall>k \<in> set [mkt_c]. \<exists>t. getitem_key k ''title'' = Inr (PStr t)"
    by (simp add: mkt_c_def)
  have B: "\<forall>p \<in> set [mkt_untitled, PDict []].
             \<exists>d. p = PDict d \<and> (\<forall>v \<in> set (title_fields d). \<not> truthy v)"
    by (simp add: mkt_untitled_def title_fields_def)
  have u: "embedding_vector unit_emb (PStr ''unknown'') = [0, 1]"
    by (simp add: embedding_vector_def unit_emb_def)
  have r: "py_round 1 3 = 1"
    by (simp add: py_round_def round_half_even_def Let_def)
  have t: "getitem_key mkt_c ''title'' = Inr (PStr ''c'')"
    by (simp add: mkt_c_def)
  note e = polymarket_title_falls_back_to_unknown
         [of "[(''title'', PStr ''''), (''slug'', PNone)]" "[mkt_c]" "[mkt_untitled, PDict []]"
             unit_emb unit_cosine, THEN conjunct2, THEN conjunct1, THEN mp, OF d]
  note m = polymarket_title_falls_back_to_unknown
         [of "[(''title'', PStr ''''), (''slug'', PNone)]" "[mkt_c]" "[mkt_untitled, PDict []]"
             unit_emb unit_cosine, THEN conjunct2, THEN conjunct2, THEN mp, OF conjI [OF A B]]
  have "extract_polymarket_title mkt_untitled = Inr (PStr ''unknown'')"
    using e by (simp add: mkt_untitled_def)
  moreover have "match_markets_ai unit_emb unit_cosine [mkt_c] [mkt_untitled, PDict []] =
     Inr [\<lparr>name = PStr ''c'', kalshi = mkt_c, polymarket = mkt_untitled, similarity = 1\<rparr>,
          \<lparr>name = PStr ''c'', kalshi = mkt_c, polymarket = PDict [], similarity = 1\<rparr>]"
    using m by (simp add: t u unit_vectors unit_cosine_def r)
  ultimately show ?thesis by simp
qed

section \<open>Embedding each title once\<close>

lemma cache_ok_lookup:
  assumes "cache_ok emb c" "map_of c t = Some v"
  shows "v = embedding_vector emb t"
proof -
  from assms(2) have "(t, v) \<in> set c" by (rule map_of_SomeD)
  with assms(1) show ?thesis by (auto simp: cache_ok_def list_all_iff)
qed

lemma get_embedding_cached_ok:
  assumes "cache_ok emb c"
  shows "\<exists>c'. get_embedding_cached emb c t = Inr (embedding_vector emb t, c') \<and> cache_ok emb c'"
proof (cases "map_of c t")
  case None
  then have "t \<notin> fst ` set c" by (simp add: map_of_eq_None_iff)
  with assms have "cache_ok emb ((t, embedding_vector emb t) # c)"
    by (simp add: cache_ok_def)
  then show ?thesis by (simp add: get_embedding_cached_def None get_embedding_eq)
next
  case (Some v)
  with cache_ok_lookup [OF assms Some] assms show ?thesis
    by (simp add: get_embedding_cached_def)
qed

lemma ai_inner_cached_eq:
  assumes "cache_ok emb c"
  shows "(\<exists>e. ai_inner_cached emb cs k kt ke ps ms c = Inl e \<and> ai_inner emb cs k kt ke ps ms = Inl e) \<or>
         (\<exists>res c'. ai_inner_cached emb cs k kt ke ps ms c = Inr (res, c') \<and>
                    ai_inner emb cs k kt ke ps ms = Inr res \<and> cache_ok emb c')"
  using assms
proof (induction ps arbitrary: ms c)
  case Nil
  then show ?case by simp
next
  case (Cons p ps)
  show ?case
  proof (cases "extract_polymarket_title p")
    case (Inl e)
    then show ?thesis by simp
  next
    case pt: (Inr pt)
    from get_embedding_cached_ok [OF Cons.prems, of pt] obtain c' where
      c': "get_embedding_cached emb c pt = Inr (embedding_vector emb pt, c')" "cache_ok emb c'"
      by blast
    show ?thesis
    proof (cases "py_slice_prefix 30 kt")
      case (Inl e)
      then show ?thesis by (simp add: pt c' get_embedding_eq Let_def)
    next
      case x: (Inr x)
      show ?thesis
      proof (cases "py_slice_prefix 30 pt")
        case (Inl e)
        then show ?thesis by (simp add: pt c' x get_embedding_eq Let_def)
      next
        case y: (Inr y)
        show ?thesis
        proof (cases "9 / 10 < cs ke (embedding_vector emb pt)")
          case True
          with Cons.IH [OF c'(2),
              of "ms @ [\<lparr>name = kt, kalshi = k, polymarket = p,
                         similarity = py_round (cs ke (embedding_vector emb pt)) 3\<rparr>]"]
          show ?thesis by (simp add: pt c' x y get_embedding_eq Let_def)
        next
          case False
          with Cons.IH [OF c'(2), of ms]
          show ?thesis by (simp add: pt c' x y get_embedding_eq Let_def)
        qed
      qed
    qed
  qed
qed

lemma ai_outer_cached_eq:
  assumes "cache_ok emb c"
  shows "(\<exists>e. ai_outer_cached emb cs ks ps ms c = Inl e \<and> ai_outer emb cs ks ps ms = Inl e) \<or>
         (\<exists>res c'. ai_outer_cached emb cs ks ps ms c = Inr (res, c') \<and>
                    ai_outer emb cs ks ps ms = Inr res \<and> cache_ok emb c')"
  using assms
proof (induction ks arbitrary: ms c)
  case Nil
  then show ?case by simp
next
  case (Cons k ks)
  show ?case
  proof (cases "getitem_key k ''title''")
    case (Inl e)
    then show ?thesis by simp
  next
    case kt: (Inr kt)
    from get_embedding_cached_ok [OF Cons.prems, of kt] obtain c' where
      c': "get_embedding_cached emb c kt = Inr (embedding_vector emb kt, c')" "cache_ok emb c'"
      by blast
    from ai_inner_cached_eq [OF c'(2), of cs k kt "embedding_vector emb kt" ps ms]
    show ?thesis
    proof
      assume "\<exists>e. ai_inner_cached emb cs k kt (embedding_vector emb kt) ps ms c' = Inl e \<and>
                  ai_inner emb cs k kt (embedding_vector emb kt) ps ms = Inl e"
      then show ?thesis by (auto simp: kt c' get_embedding_eq)
    next
      assume "\<exists>res c''. ai_inner_cached emb cs k kt (embedding_vector emb kt) ps ms c' = Inr (res, c'') \<and>
                  ai_inner emb cs k kt (embedding_vector emb kt) ps ms = Inr res \<and> cache_ok emb c''"
      then obtain res c'' where
        inner: "ai_inner_cached emb cs k kt (embedding_vector emb kt) ps ms c' = Inr (res, c'')"
               "ai_inner emb cs k kt (embedding_vector emb kt) ps ms = Inr res" "cache_ok emb c''"
        by blast
      from Cons.IH [OF inner(3), of res] show ?thesis
        by (simp add: kt c' get_embedding_eq inner)
    qed
  qed
qed

text \<open>
  C9. With the embedding provider a function of the text, the matcher that embeds each
  title once per pass, keeping the vectors in a cache, returns what the matcher as
  written returns on every pair of market lists: the same list of pairs, or the same
  exception.
\<close>

theorem cached_embedding_matcher_same_output:
  "match_markets_ai_cached emb cs A B = match_markets_ai emb cs A B"
proof -
  have "cache_ok emb []" by (simp add: cache_ok_def)
  from ai_outer_cached_eq [OF this, of cs A B "[]"] show ?thesis
    by (auto simp: match_markets_ai_cached_def match_markets_ai_def)
qed

section \<open>Result assembly\<close>

lemma evaluate_ai_total: "\<exists>r. evaluate_ai pf stake pair = Inr r"
  by (simp add: evaluate_ai_def get_kalshi_yes_bid_eq get_polymarket_no_price_eq Let_def
      split: option.splits)

lemma evaluation_loop_ai_eq:
  "evaluation_loop_ai pf stake pairs rows =
     Inr (rows @ concat (map (\<lambda>pair. case evaluate_ai pf stake pair of Inr (Some r) \<Rightarrow> [r] | _ \<Rightarrow> []) pairs))"
proof (induction pairs arbitrary: rows)
  case Nil
  show ?case by simp
next
  case (Cons pair pairs)
  obtain r where r: "evaluate_ai pf stake pair = Inr r"
    using evaluate_ai_total by blast
  show ?case by (cases r) (simp_all add: r Cons.IH)
qed

lemma sort_values_sorted: "sorted (map Total_Cost (sort_values rows))"
  by (simp add: sort_values_def)

lemma sort_values_mset: "mset (sort_values rows) = mset rows"
  by (simp add: sort_values_def)

lemma sort_values_Nil: "sort_values rows = [] \<longleftrightarrow> rows = []"
  using sort_values_mset [of rows] by (metis mset_zero_iff)

lemma cycle_eq:
  assumes "match_markets A B = Inr ms"
  shows "cycle pf stake A B =
           Inr (if collected (evaluate pf stake) ms = []
                then Message ''No matched markets or arbitrage detected.''
                else Dataframe (sort_values (collected (evaluate pf stake) ms)))"
  by (simp add: cycle_def assms evaluation_loop_eq collected_def Let_def sort_values_Nil)

lemma run_ai_eq:
  assumes "match_markets_ai emb cs A B = Inr ms"
  shows "run_ai emb cs pf stake A B =
           Inr (if collected (evaluate_ai pf stake) ms = []
                then Message ''No matched markets or arbitrage detected.''
                else Dataframe (sort_values (collected (evaluate_ai pf stake) ms)))"
  by (simp add: run_ai_def assms evaluation_loop_ai_eq collected_def)

lemma normalize_sun_rain:
  "normalize_str ''Sun?'' = ''sun''" "normalize_str ''sun'' = ''sun''"
  "normalize_str ''Will it rain tomorrow?'' = ''willitraintomorrow''"
  "normalize_str ''Will it rain tomorrow'' = ''willitraintomorrow''"
  by code_simp+

lemma match_sun_rain:
  "match_markets [rain_kalshi, sun_kalshi] [sun_polymarket, rain_polymarket] =
     Inr [\<lparr>name = PStr ''sun'', kalshi = sun_kalshi, polymarket = sun_polymarket\<rparr>,
          \<lparr>name = PStr ''Will it rain tomorrow'', kalshi = rain_kalshi, polymarket = rain_polymarket\<rparr>]"
proof -
  have t: "getitem_key rain_kalshi ''title'' = Inr (PStr ''Will it rain tomorrow?'')"
    "getitem_key sun_kalshi ''title'' = Inr (PStr ''Sun?'')"
    "getitem_key rain_polymarket ''title'' = Inr (PStr ''Will it rain tomorrow'')"
    "getitem_key sun_polymarket ''title'' = Inr (PStr ''sun'')"
    by (simp_all add: rain_kalshi_def sun_kalshi_def rain_polymarket_def sun_polymarket_def)
  show ?thesis
    by (simp add: match_markets_def t normalize_sun_rain)
qed

lemma sun_prices:
  "get_kalshi_yes_bid pf sun_kalshi = Inr (Some (3 / 5))"
  "get_polymarket_no_price pf sun_polymarket = Inr (Some (11 / 20))"
  by (simp_all add: get_kalshi_yes_bid_eq yes_bid_body_def sun_kalshi_def
      get_polymarket_no_price_eq no_price_body_def sun_polymarket_def str_lower_No)

text \<open>
  C6. In both dashboards, once the matcher has returned, what is handed to the display
  is the list of all rows of the pairs that were not skipped for a null price, sorted
  ascending by total cost: the same rows with the same multiplicities, whether
  flagged as arbitrage or not. When there is no such row, the message is shown in
  place of a table.
\<close>

theorem display_sorted_by_total_cost:
  "(match_markets A B = Inr ms \<longrightarrow>
      cycle pf stake A B =
        Inr (if collected (evaluate pf stake) ms = []
             then Message ''No matched markets or arbitrage detected.''
             else Dataframe (sort_values (collected (evaluate pf stake) ms)))) \<and>
   (match_markets_ai emb cs A B = Inr ms' \<longrightarrow>
      run_ai emb cs pf stake A B =
        Inr (if collected (evaluate_ai pf stake) ms' = []
             then Message ''No matched markets or arbitrage detected.''
             else Dataframe (sort_values (collected (evaluate_ai pf stake) ms')))) \<and>
   sorted (map Total_Cost (sort_values rows)) \<and>
   mset (sort_values rows) = mset rows"
  by (simp add: cycle_eq run_ai_eq sort_values_sorted sort_values_mset)

theorem display_sorted_by_total_cost_witness:
  "cycle numbers_only 100 [rain_kalshi, sun_kalshi] [sun_polymarket, rain_polymarket] =
     Inr (Dataframe
       [\<lparr>Market = PStr ''Will it rain tomorrow'', Kalshi_YES = 2 / 5, Polymarket_NO = 11 / 20,
          Total_Cost = 19 / 20, Arbitrage = True, Profit = Some 5\<rparr>,
        \<lparr>Market = PStr ''sun'', Kalshi_YES = 3 / 5, Polymarket_NO = 11 / 20,
          Total_Cost = 23 / 20, Arbitrage = False, Profit = None\<rparr>]) \<and>
   run_ai unit_emb unit_cosine numbers_only 100 [mkt_a] [mkt_c] =
     Inr (Message ''No matched markets or arbitrage detected.'')"
proof -
  note c = display_sorted_by_total_cost
    [where A = "[rain_kalshi, sun_kalshi]" and B = "[sun_polymarket, rain_polymarket]"
       and pf = numbers_only and stake = 100,
     THEN conjunct1, THEN mp, OF match_sun_rain]
  have rows: "collected (evaluate numbers_only 100)
          [\<lparr>name = PStr ''sun'', kalshi = sun_kalshi, polymarket = sun_polymarket\<rparr>,
           \<lparr>name = PStr ''Will it rain tomorrow'', kalshi = rain_kalshi, polymarket = rain_polymarket\<rparr>] =
        [\<lparr>Market = PStr ''sun'', Kalshi_YES = 3 / 5, Polymarket_NO = 11 / 20,
          Total_Cost = 23 / 20, Arbitrage = False, Profit = None\<rparr>,
         \<lparr>Market = PStr ''Will it rain tomorrow'', Kalshi_YES = 2 / 5, Polymarket_NO = 11 / 20,
          Total_Cost = 19 / 20, Arbitrage = True, Profit = Some 5\<rparr>]"
    by (simp add: collected_def evaluate_eq sun_prices rain_yes_bid rain_no_price)
      (simp add: py_round_def round_half_even_def Let_def)
  have 1: "cycle numbers_only 100 [rain_kalshi, sun_kalshi] [sun_polymarket, rain_polymarket] =
     Inr (Dataframe
       [\<lparr>Market = PStr ''Will it rain tomorrow'', Kalshi_YES = 2 / 5, Polymarket_NO = 11 / 20,
          Total_Cost = 19 / 20, Arbitrage = True, Profit = Some 5\<rparr>,
        \<lparr>Market = PStr ''sun'', Kalshi_YES = 3 / 5, Polymarket_NO = 11 / 20,
          Total_Cost = 23 / 20, Arbitrage = False, Profit = None\<rparr>])"
    unfolding c rows by (simp add: sort_values_def)
  have 2: "run_ai unit_emb unit_cosine numbers_only 100 [mkt_a] [mkt_c] =
     Inr (Message ''No matched markets or arbitrage detected.'')"
    by (simp add: run_ai_eq [OF match_a_c] collected_def)
  from 1 2 show ?thesis by simp
qed

end
